theory Spec2Isabelle
  imports Complex_Main "HOL-Library.Word"
begin

unbundle bit_operations_syntax

section \<open>The noise generator of main.js (class PerlinNoise)\<close>

text \<open>
  The class PerlinNoise of src/main.js (the same text opens the two other script files) owns
  two arrays, \<open>perm\<close> and \<open>gradP\<close>, a constant palette \<open>grad3\<close>, and the
  methods \<open>seed\<close>, \<open>lerp\<close>, \<open>fade\<close>, \<open>grad\<close>, \<open>noise2D\<close> and \<open>perlin2D\<close>.

  The methods are embedded twice. The first embedding computes on exact numbers: \<open>real\<close>
  for coordinates, amplitudes and noise values, \<open>int\<close> for the values kept in the
  tables. It says which function of the tables and the point the code computes. The second
  embedding (\<open>noise2D_double\<close>, \<open>perlin2D_double\<close>) rounds the result of every
  arithmetic operation to an IEEE-754 double, with overflow to an infinity and NaN; it says
  which double the code returns, and the properties of a returned value are stated on it.

  In both, what JavaScript does where a mathematical value is missing is kept: reading a slot
  of an array that was never written gives \<open>undefined\<close>, arithmetic on \<open>undefined\<close>
  gives \<open>NaN\<close>, indexing \<open>undefined\<close> throws a TypeError, the bitwise operators work on
  the 32-bit two's complement image of their operands, \<open>%\<close> keeps the sign of the dividend,
  and a division by zero gives NaN or an infinity.
\<close>

subsection \<open>Values\<close>

text \<open>What a slot of \<open>p\<close> or \<open>perm\<close>, or an index computed from one, can hold.\<close>

datatype jsval = Undefined | Num int | NaN

datatype error = TypeError

text \<open>
  A number that may be NaN or an infinity: the result of the final division of
  \<open>perlin2D\<close>, and every value of the embedding in doubles. The two zeros of IEEE-754 are
  not distinguished.
\<close>

datatype jsnumber = Finite real | NotANumber | PosInfinity | NegInfinity

type_synonym vec2 = "real \<times> real"

text \<open>
  An array is a function from indices to slots; a slot never written reads as
  \<open>undefined\<close> (\<open>Undefined\<close>, or \<open>None\<close> for an array of vectors). Writing at any
  integer index, also a negative one, stores a property that a later read returns.
\<close>

record PerlinNoise =
  perm :: "int \<Rightarrow> jsval"
  gradP :: "int \<Rightarrow> vec2 option"

definition grad3 :: "vec2 list" where
  "grad3 = [(1, 1), (-1, 1), (1, -1), (-1, -1), (1, 0), (-1, 0), (0, 1), (0, -1)]"

subsection \<open>Operators of JavaScript\<close>

text \<open>\<open>a % b\<close> on integers: the remainder of the truncating division.\<close>

definition js_rem :: "int \<Rightarrow> int \<Rightarrow> int" where
  "js_rem a b = sgn a * (\<bar>a\<bar> mod \<bar>b\<bar>)"

text \<open>\<open>n | (n << 8)\<close>: both operators convert to 32 bits and give a signed 32-bit value.\<close>

definition or_shl8 :: "int \<Rightarrow> int" where
  "or_shl8 n = sint ((word_of_int n :: 32 word) OR push_bit 8 (word_of_int n :: 32 word))"

text \<open>\<open>n & 255\<close>.\<close>

definition and255 :: "int \<Rightarrow> int" where
  "and255 n = sint ((word_of_int n :: 32 word) AND 255)"

text \<open>\<open>v + k\<close> for a slot \<open>v\<close> and a number \<open>k\<close>: \<open>undefined + k\<close> is NaN.\<close>

fun js_plus :: "jsval \<Rightarrow> int \<Rightarrow> jsval" where
  "js_plus (Num n) k = Num (n + k)"
| "js_plus Undefined k = NaN"
| "js_plus NaN k = NaN"

text \<open>\<open>a[v]\<close>: the keys \<open>NaN\<close> and \<open>undefined\<close> are never written.\<close>

fun js_index :: "(int \<Rightarrow> jsval) \<Rightarrow> jsval \<Rightarrow> jsval" where
  "js_index a (Num n) = a n"
| "js_index a Undefined = Undefined"
| "js_index a NaN = Undefined"

text \<open>\<open>v & 255\<close>: \<open>undefined\<close> and NaN convert to 0.\<close>

fun js_and255 :: "jsval \<Rightarrow> int" where
  "js_and255 (Num n) = and255 n"
| "js_and255 Undefined = 0"
| "js_and255 NaN = 0"

text \<open>\<open>this.grad3[v % 8]\<close>: outside 0..7, and at NaN, the palette has no element.\<close>

fun grad3_at :: "jsval \<Rightarrow> vec2 option" where
  "grad3_at (Num n) =
     (let k = js_rem n 8 in if 0 \<le> k \<and> k < 8 then Some (grad3 ! nat k) else None)"
| "grad3_at Undefined = None"
| "grad3_at NaN = None"

text \<open>\<open>a / b\<close> on exact numbers.\<close>

definition js_div :: "real \<Rightarrow> real \<Rightarrow> jsnumber" where
  "js_div a b =
     (if b \<noteq> 0 then Finite (a / b)
      else if a = 0 then NotANumber
      else if 0 < a then PosInfinity else NegInfinity)"

subsection \<open>seed\<close>

text \<open>Lines 25 to 33: the rescaling, the floor and the fold of small values.\<close>

definition prepare_seed :: "real \<Rightarrow> int" where
  "prepare_seed v =
     (let v1 = (if 0 < v \<and> v < 1 then v * 65536 else v);
          n = \<lfloor>v1\<rfloor>
      in if n < 256 then or_shl8 n else n)"

text \<open>Lines 36 to 39: \<open>p = new Array(256)\<close>, then \<open>p[i] = i\<close> for i = 0, ..., 255.\<close>

definition identity_table :: "int \<Rightarrow> jsval" where
  "identity_table = fold (\<lambda>i p. p(int i := Num (int i))) [0..<256] (\<lambda>_. Undefined)"

text \<open>
  Lines 44 and 45: the generator and the pick index, on exact integers. The code multiplies
  doubles: its product \<open>seed * 16807\<close> is exact while \<open>\<bar>seed\<bar> * 16807 \<le> 2^53\<close>, which
  holds at every step after the first, since then \<open>\<bar>seed\<bar> < 2147483647\<close>, and at the first
  step for \<open>\<bar>seed\<bar> < 2^38\<close>. Beyond that the code's first product is rounded and the facts
  below speak of the exact generator only.
\<close>

definition next_seed :: "int \<Rightarrow> int" where
  "next_seed s = js_rem (s * 16807) 2147483647"

definition pick :: "int \<Rightarrow> int \<Rightarrow> int" where
  "pick s i = \<lfloor>(real_of_int s / 2147483647) * real_of_int (i + 1)\<rfloor>"

text \<open>
  Lines 42 to 51: the loop \<open>for (let i = 255; i > 0; i--)\<close>. \<open>shuffle (Suc n) s p\<close> is the
  loop from \<open>i = n + 1\<close> down to 1 on the generator state \<open>s\<close> and the array \<open>p\<close>.
\<close>

fun shuffle :: "nat \<Rightarrow> int \<Rightarrow> (int \<Rightarrow> jsval) \<Rightarrow> (int \<Rightarrow> jsval)" where
  "shuffle 0 s p = p"
| "shuffle (Suc n) s p =
     (let i = int (Suc n);
          s' = next_seed s;
          r = pick s' i;
          temp = p i;
          p1 = p(i := p r);
          p2 = p1(r := temp)
      in shuffle n s' p2)"

text \<open>
  Lines 54 to 58: \<open>this.perm[i] = this.perm[i + 256] = p[i]\<close> and
  \<open>this.gradP[i] = this.gradP[i + 256] = this.grad3[p[i] % 8]\<close>, for i = 0, ..., 255.
\<close>

definition write_slot :: "(int \<Rightarrow> jsval) \<Rightarrow> nat \<Rightarrow> PerlinNoise \<Rightarrow> PerlinNoise" where
  "write_slot p k f =
     (let i = int k
      in f\<lparr>perm := (perm f)(i + 256 := p i, i := p i),
            gradP := (gradP f)(i + 256 := grad3_at (p i), i := grad3_at (p i))\<rparr>)"

definition write_tables :: "(int \<Rightarrow> jsval) \<Rightarrow> PerlinNoise \<Rightarrow> PerlinNoise" where
  "write_tables p f = fold (write_slot p) [0..<256] f"

definition seed :: "real \<Rightarrow> PerlinNoise \<Rightarrow> PerlinNoise" where
  "seed v f = write_tables (shuffle 255 (prepare_seed v) identity_table) f"

text \<open>
  The constructor: two arrays of 512 empty slots, then \<open>this.seed(Math.random())\<close>. The
  random draw, a number \<open>r\<close> with \<open>0 \<le> r < 1\<close>, is a parameter.
\<close>

definition empty_tables :: PerlinNoise where
  "empty_tables = \<lparr>perm = (\<lambda>_. Undefined), gradP = (\<lambda>_. None)\<rparr>"

definition new_PerlinNoise :: "real \<Rightarrow> PerlinNoise" where
  "new_PerlinNoise r = seed r empty_tables"

subsection \<open>Sampling\<close>

definition lerp :: "real \<Rightarrow> real \<Rightarrow> real \<Rightarrow> real" where
  "lerp a b t = (1 - t) * a + t * b"

definition fade :: "real \<Rightarrow> real" where
  "fade t = t * t * t * (t * (t * 6 - 15) + 10)"

text \<open>\<open>grad\<close>: reading \<open>g[0]\<close> of an undefined \<open>g\<close> throws.\<close>

definition grad :: "PerlinNoise \<Rightarrow> jsval \<Rightarrow> real \<Rightarrow> real \<Rightarrow> error + real" where
  "grad f hash x y =
     (case gradP f (js_and255 hash) of
        None \<Rightarrow> Inl TypeError
      | Some g \<Rightarrow> Inr (fst g * x + snd g * y))"

definition noise2D :: "PerlinNoise \<Rightarrow> real \<Rightarrow> real \<Rightarrow> error + real" where
  "noise2D f x0 y0 =
     (let X = and255 \<lfloor>x0\<rfloor>;
          Y = and255 \<lfloor>y0\<rfloor>;
          x = x0 - of_int \<lfloor>x0\<rfloor>;
          y = y0 - of_int \<lfloor>y0\<rfloor>;
          u = fade x;
          v = fade y;
          aa = js_plus (perm f X) Y;
          ab = js_plus (js_plus (perm f X) Y) 1;
          ba = js_plus (perm f (X + 1)) Y;
          bb = js_plus (js_plus (perm f (X + 1)) Y) 1
      in case grad f (js_index (perm f) aa) x y of Inl e \<Rightarrow> Inl e | Inr g00 \<Rightarrow>
         (case grad f (js_index (perm f) ab) x (y - 1) of Inl e \<Rightarrow> Inl e | Inr g01 \<Rightarrow>
         (case grad f (js_index (perm f) ba) (x - 1) y of Inl e \<Rightarrow> Inl e | Inr g10 \<Rightarrow>
         (case grad f (js_index (perm f) bb) (x - 1) (y - 1) of Inl e \<Rightarrow> Inl e | Inr g11 \<Rightarrow>
            (let nx0 = lerp g00 g01 v;
                 nx1 = lerp g10 g11 v;
                 nxy = lerp nx0 nx1 u
             in Inr nxy)))))"

text \<open>
  The loop of \<open>perlin2D\<close>, \<open>for (let i = 0; i < octaves; i++)\<close>, on its four
  variables; it returns \<open>total\<close> (written \<open>total'\<close>) and \<open>maxValue\<close>.
\<close>

function perlin_loop ::
  "PerlinNoise \<Rightarrow> real \<Rightarrow> real \<Rightarrow> int \<Rightarrow> real \<Rightarrow> real \<Rightarrow>
   int \<Rightarrow> real \<Rightarrow> real \<Rightarrow> real \<Rightarrow> real \<Rightarrow> error + real \<times> real" where
  "perlin_loop f x y octaves persistence lacunarity i total' frequency amplitude maxValue =
     (if i < octaves then
        (case noise2D f (x * frequency) (y * frequency) of
           Inl e \<Rightarrow> Inl e
         | Inr n \<Rightarrow>
             perlin_loop f x y octaves persistence lacunarity (i + 1)
               (total' + n * amplitude) (frequency * lacunarity)
               (amplitude * persistence) (maxValue + amplitude))
      else Inr (total', maxValue))"
  by pat_completeness auto
termination
  by (relation "measure (\<lambda>(f, x, y, octaves, persistence, lacunarity, i, rest). nat (octaves - i))")
     auto

declare perlin_loop.simps [simp del]

definition perlin2D ::
  "PerlinNoise \<Rightarrow> real \<Rightarrow> real \<Rightarrow> int \<Rightarrow> real \<Rightarrow> real \<Rightarrow> error + jsnumber" where
  "perlin2D f x y octaves persistence lacunarity =
     (case perlin_loop f x y octaves persistence lacunarity 0 0 1 1 0 of
        Inl e \<Rightarrow> Inl e
      | Inr (total', maxValue) \<Rightarrow> Inr (js_div total' maxValue))"

subsection \<open>Sampling in IEEE-754 doubles\<close>

text \<open>
  \<open>pow2 e\<close> is \<open>2^e\<close> for an integer \<open>e\<close>. \<open>round_even\<close> rounds a real to the nearest
  integer, a tie to the even one. \<open>fl x\<close> is the double nearest to the real \<open>x\<close> (binary64,
  round to nearest, ties to even): 53 significant bits above \<open>2^-1022\<close>, multiples of
  \<open>2^-1074\<close> below, and an infinity when the rounded value reaches \<open>2^1024\<close>.
\<close>

definition pow2 :: "int \<Rightarrow> real" where
  "pow2 e = (if 0 \<le> e then 2 ^ nat e else 1 / 2 ^ nat (- e))"

definition round_even :: "real \<Rightarrow> int" where
  "round_even r =
     (let n = \<lfloor>r\<rfloor>; d = r - of_int n
      in if d < 1 / 2 then n else if 1 / 2 < d then n + 1 else if even n then n else n + 1)"

definition exponent :: "real \<Rightarrow> int" where
  "exponent x = max \<lfloor>log 2 \<bar>x\<bar>\<rfloor> (- 1022)"

definition fl :: "real \<Rightarrow> jsnumber" where
  "fl x =
     (let e = exponent x - 52;
          r = of_int (round_even (x / pow2 e)) * pow2 e
      in if pow2 1024 \<le> \<bar>r\<bar> then (if 0 < x then PosInfinity else NegInfinity) else Finite r)"

text \<open>
  The operators \<open>-x\<close>, \<open>+\<close>, \<open>-\<close>, \<open>*\<close> and \<open>/\<close> of JavaScript on doubles: the exact
  result rounded by \<open>fl\<close>, and the rules of IEEE-754 for NaN and the infinities.
  The quotient by a zero takes the sign of the dividend: the only division of the class is
  \<open>total / maxValue\<close>, and \<open>maxValue\<close>, a sum that starts from \<open>+0\<close>, is never \<open>-0\<close>.
\<close>

fun dneg :: "jsnumber \<Rightarrow> jsnumber" where
  "dneg (Finite a) = Finite (- a)"
| "dneg NotANumber = NotANumber"
| "dneg PosInfinity = NegInfinity"
| "dneg NegInfinity = PosInfinity"

fun dadd :: "jsnumber \<Rightarrow> jsnumber \<Rightarrow> jsnumber" where
  "dadd (Finite a) (Finite b) = fl (a + b)"
| "dadd NotANumber b = NotANumber"
| "dadd a NotANumber = NotANumber"
| "dadd PosInfinity NegInfinity = NotANumber"
| "dadd NegInfinity PosInfinity = NotANumber"
| "dadd PosInfinity b = PosInfinity"
| "dadd a PosInfinity = PosInfinity"
| "dadd NegInfinity b = NegInfinity"
| "dadd a NegInfinity = NegInfinity"

definition dsub :: "jsnumber \<Rightarrow> jsnumber \<Rightarrow> jsnumber" where
  "dsub a b = dadd a (dneg b)"

definition signed_inf :: "bool \<Rightarrow> jsnumber" where
  "signed_inf positive = (if positive then PosInfinity else NegInfinity)"

fun dmul :: "jsnumber \<Rightarrow> jsnumber \<Rightarrow> jsnumber" where
  "dmul (Finite a) (Finite b) = fl (a * b)"
| "dmul NotANumber b = NotANumber"
| "dmul a NotANumber = NotANumber"
| "dmul (Finite a) PosInfinity = (if a = 0 then NotANumber else signed_inf (0 < a))"
| "dmul (Finite a) NegInfinity = (if a = 0 then NotANumber else signed_inf (a < 0))"
| "dmul PosInfinity (Finite b) = (if b = 0 then NotANumber else signed_inf (0 < b))"
| "dmul NegInfinity (Finite b) = (if b = 0 then NotANumber else signed_inf (b < 0))"
| "dmul PosInfinity PosInfinity = PosInfinity"
| "dmul PosInfinity NegInfinity = NegInfinity"
| "dmul NegInfinity PosInfinity = NegInfinity"
| "dmul NegInfinity NegInfinity = PosInfinity"

fun ddiv :: "jsnumber \<Rightarrow> jsnumber \<Rightarrow> jsnumber" where
  "ddiv (Finite a) (Finite b) =
     (if b \<noteq> 0 then fl (a / b) else if a = 0 then NotANumber else signed_inf (0 < a))"
| "ddiv NotANumber b = NotANumber"
| "ddiv a NotANumber = NotANumber"
| "ddiv (Finite a) PosInfinity = Finite 0"
| "ddiv (Finite a) NegInfinity = Finite 0"
| "ddiv PosInfinity (Finite b) = signed_inf (0 \<le> b)"
| "ddiv NegInfinity (Finite b) = signed_inf (b < 0)"
| "ddiv PosInfinity PosInfinity = NotANumber"
| "ddiv PosInfinity NegInfinity = NotANumber"
| "ddiv NegInfinity PosInfinity = NotANumber"
| "ddiv NegInfinity NegInfinity = NotANumber"

text \<open>\<open>Math.floor(x)\<close> and \<open>Math.floor(x) & 255\<close>; NaN and the infinities convert to 0.\<close>

fun dfloor :: "jsnumber \<Rightarrow> jsnumber" where
  "dfloor (Finite a) = Finite (of_int \<lfloor>a\<rfloor>)"
| "dfloor NotANumber = NotANumber"
| "dfloor PosInfinity = PosInfinity"
| "dfloor NegInfinity = NegInfinity"

fun dand255 :: "jsnumber \<Rightarrow> int" where
  "dand255 (Finite a) = and255 \<lfloor>a\<rfloor>"
| "dand255 NotANumber = 0"
| "dand255 PosInfinity = 0"
| "dand255 NegInfinity = 0"

text \<open>\<open>lerp\<close>, \<open>fade\<close>, \<open>grad\<close>, \<open>noise2D\<close> and \<open>perlin2D\<close> once more, every operation rounded.\<close>

definition lerp_double :: "jsnumber \<Rightarrow> jsnumber \<Rightarrow> jsnumber \<Rightarrow> jsnumber" where
  "lerp_double a b t = dadd (dmul (dsub (Finite 1) t) a) (dmul t b)"

definition fade_double :: "jsnumber \<Rightarrow> jsnumber" where
  "fade_double t =
     dmul (dmul (dmul t t) t) (dadd (dmul t (dsub (dmul t (Finite 6)) (Finite 15))) (Finite 10))"

definition grad_double :: "PerlinNoise \<Rightarrow> jsval \<Rightarrow> jsnumber \<Rightarrow> jsnumber \<Rightarrow> error + jsnumber" where
  "grad_double f hash x y =
     (case gradP f (js_and255 hash) of
        None \<Rightarrow> Inl TypeError
      | Some g \<Rightarrow> Inr (dadd (dmul (Finite (fst g)) x) (dmul (Finite (snd g)) y)))"

definition noise2D_double :: "PerlinNoise \<Rightarrow> jsnumber \<Rightarrow> jsnumber \<Rightarrow> error + jsnumber" where
  "noise2D_double f x0 y0 =
     (let X = dand255 (dfloor x0);
          Y = dand255 (dfloor y0);
          x = dsub x0 (dfloor x0);
          y = dsub y0 (dfloor y0);
          u = fade_double x;
          v = fade_double y;
          aa = js_plus (perm f X) Y;
          ab = js_plus (js_plus (perm f X) Y) 1;
          ba = js_plus (perm f (X + 1)) Y;
          bb = js_plus (js_plus (perm f (X + 1)) Y) 1
      in case grad_double f (js_index (perm f) aa) x y of Inl e \<Rightarrow> Inl e | Inr g00 \<Rightarrow>
         (case grad_double f (js_index (perm f) ab) x (dsub y (Finite 1)) of Inl e \<Rightarrow> Inl e | Inr g01 \<Rightarrow>
         (case grad_double f (js_index (perm f) ba) (dsub x (Finite 1)) y of Inl e \<Rightarrow> Inl e | Inr g10 \<Rightarrow>
         (case grad_double f (js_index (perm f) bb) (dsub x (Finite 1)) (dsub y (Finite 1)) of
            Inl e \<Rightarrow> Inl e | Inr g11 \<Rightarrow>
            (let nx0 = lerp_double g00 g01 v;
                 nx1 = lerp_double g10 g11 v;
                 nxy = lerp_double nx0 nx1 u
             in Inr nxy)))))"

function perlin_loop_double ::
  "PerlinNoise \<Rightarrow> jsnumber \<Rightarrow> jsnumber \<Rightarrow> int \<Rightarrow> jsnumber \<Rightarrow> jsnumber \<Rightarrow>
   int \<Rightarrow> jsnumber \<Rightarrow> jsnumber \<Rightarrow> jsnumber \<Rightarrow> jsnumber \<Rightarrow> error + jsnumber \<times> jsnumber" where
  "perlin_loop_double f x y octaves persistence lacunarity i total' frequency amplitude maxValue =
     (if i < octaves then
        (case noise2D_double f (dmul x frequency) (dmul y frequency) of
           Inl e \<Rightarrow> Inl e
         | Inr n \<Rightarrow>
             perlin_loop_double f x y octaves persistence lacunarity (i + 1)
               (dadd total' (dmul n amplitude)) (dmul frequency lacunarity)
               (dmul amplitude persistence) (dadd maxValue amplitude))
      else Inr (total', maxValue))"
  by pat_completeness auto
termination
  by (relation "measure (\<lambda>(f, x, y, octaves, persistence, lacunarity, i, rest). nat (octaves - i))")
     auto

declare perlin_loop_double.simps [simp del]

definition perlin2D_double ::
  "PerlinNoise \<Rightarrow> jsnumber \<Rightarrow> jsnumber \<Rightarrow> int \<Rightarrow> jsnumber \<Rightarrow> jsnumber \<Rightarrow> error + jsnumber" where
  "perlin2D_double f x y octaves persistence lacunarity =
     (case perlin_loop_double f x y octaves persistence lacunarity 0 (Finite 0) (Finite 1) (Finite 1)
             (Finite 0) of
        Inl e \<Rightarrow> Inl e
      | Inr (total', maxValue) \<Rightarrow> Inr (ddiv total' maxValue))"

subsection \<open>Method calls\<close>

text \<open>
  A call of a method on the object gives the returned value and the object after the call.
  Only \<open>seed\<close> assigns to \<open>this.perm\<close> and \<open>this.gradP\<close>; the bodies of
  \<open>noise2D\<close> and \<open>perlin2D\<close> (and of \<open>grad\<close>, \<open>fade\<close> and \<open>lerp\<close>, which
  they call) hold no assignment to a property of \<open>this\<close>.
\<close>

datatype call = Seed real | Noise2D real real | Perlin2D real real int real real

datatype returned = Void | Sample "error + real" | Fractal "error + jsnumber"

fun invoke :: "call \<Rightarrow> PerlinNoise \<Rightarrow> returned \<times> PerlinNoise" where
  "invoke (Seed v) f = (Void, seed v f)"
| "invoke (Noise2D x y) f = (Sample (noise2D f x y), f)"
| "invoke (Perlin2D x y octaves persistence lacunarity) f =
     (Fractal (perlin2D f x y octaves persistence lacunarity), f)"

fun sampling :: "call \<Rightarrow> bool" where
  "sampling (Seed v) = False"
| "sampling (Noise2D x y) = True"
| "sampling (Perlin2D x y octaves persistence lacunarity) = True"

text \<open>The object after a sequence of calls.\<close>

fun run :: "call list \<Rightarrow> PerlinNoise \<Rightarrow> PerlinNoise" where
  "run [] f = f"
| "run (c # cs) f = run cs (snd (invoke c f))"

subsection \<open>Well-formed tables\<close>

text \<open>
  What \<open>noise2D\<close> relies on: each of the 512 slots of \<open>perm\<close> holds an integer from 0
  to 255, and the slot of \<open>gradP\<close> at the same index holds the palette vector of that
  integer.
\<close>

definition tables_ok :: "PerlinNoise \<Rightarrow> bool" where
  "tables_ok f \<longleftrightarrow>
     (\<forall>k\<in>{0..<512}. \<exists>n\<in>{0..<256}. perm f k = Num n \<and> gradP f k = grad3_at (Num n))"

text \<open>The tables read as total functions (0 and the zero vector where a slot is not filled).\<close>

definition perm_of :: "PerlinNoise \<Rightarrow> int \<Rightarrow> int" where
  "perm_of f k = (case perm f k of Num n \<Rightarrow> n | Undefined \<Rightarrow> 0 | NaN \<Rightarrow> 0)"

definition grad_of :: "PerlinNoise \<Rightarrow> int \<Rightarrow> vec2" where
  "grad_of f k = (case gradP f k of Some g \<Rightarrow> g | None \<Rightarrow> (0, 0))"

subsection \<open>Auxiliary functions\<close>

text \<open>
  \<open>picks n s []\<close> lists the pick indices of the steps \<open>i = 1, \<dots>, n\<close> of the shuffle
  started in the generator state \<open>s\<close>, and \<open>follow 1 rs k\<close> is the position from which the
  swaps with the picks \<open>rs\<close> bring the value that ends at position \<open>k\<close>.
\<close>

fun picks :: "nat \<Rightarrow> int \<Rightarrow> int list \<Rightarrow> int list" where
  "picks 0 s acc = acc"
| "picks (Suc n) s acc = picks n (next_seed s) (pick (next_seed s) (int (Suc n)) # acc)"

fun follow :: "int \<Rightarrow> int list \<Rightarrow> int \<Rightarrow> int" where
  "follow i [] k = k"
| "follow i (r # rs) k = follow (i + 1) rs (if k = i then r else if k = r then i else k)"

text \<open>An object without slots outside the 512 of each table, as every constructed object is.\<close>

definition outside_empty :: "PerlinNoise \<Rightarrow> bool" where
  "outside_empty f \<longleftrightarrow> (\<forall>k. k < 0 \<or> 512 \<le> k \<longrightarrow> perm f k = Undefined \<and> gradP f k = None)"

section \<open>The specification's description, in its own words\<close>

subsection \<open>Seeding\<close>

text \<open>
  ``If \<open>0 < value < 1\<close>, it is first rescaled by multiplying by 65536. The value is then
  floored to an integer. If the resulting integer is less than 256, it is folded with itself
  via \<open>value | (value << 8)\<close>'': the bitwise operators are those of the integers.
\<close>

definition spec_prepare :: "real \<Rightarrow> int" where
  "spec_prepare v =
     (let v1 = (if 0 < v \<and> v < 1 then v * 65536 else v);
          n = \<lfloor>v1\<rfloor>
      in if n < 256 then n OR push_bit 8 n else n)"

text \<open>
  ``At each step \<open>i\<close> from 255 down to 1, update \<open>seed = (seed * 16807) mod 2147483647\<close>,
  compute a pick index \<open>r = floor((seed / 2147483647) * (i + 1))\<close>, and swap the values at
  positions \<open>i\<close> and \<open>r\<close>'': \<open>mod\<close> is the modulus of the integers, with a result from
  0 to 2147483646, and the sequence is a list of 256 values.
\<close>

fun spec_shuffle :: "nat \<Rightarrow> int \<Rightarrow> int list \<Rightarrow> int list" where
  "spec_shuffle 0 s xs = xs"
| "spec_shuffle (Suc n) s xs =
     (let i = Suc n;
          s' = (s * 16807) mod 2147483647;
          r = nat \<lfloor>(real_of_int s' / 2147483647) * real (i + 1)\<rfloor>
      in spec_shuffle n s' (xs[i := xs ! r, r := xs ! i]))"

definition spec_permutation :: "real \<Rightarrow> int list" where
  "spec_permutation v = spec_shuffle 255 (spec_prepare v) [0..255]"

subsection \<open>Sampling\<close>

text \<open>``The quintic fade curve \<open>f(t) = 6t^5 - 15t^4 + 10t^3\<close>''.\<close>

definition spec_fade :: "real \<Rightarrow> real" where
  "spec_fade t = 6 * t ^ 5 - 15 * t ^ 4 + 10 * t ^ 3"

definition spec_lerp :: "real \<Rightarrow> real \<Rightarrow> real \<Rightarrow> real" where
  "spec_lerp a b t = a + t * (b - a)"

definition dot :: "vec2 \<Rightarrow> vec2 \<Rightarrow> real" where
  "dot g d = fst g * fst d + snd g * snd d"

text \<open>
  The contribution of the corner \<open>(dx, dy)\<close> of the cell \<open>(X, Y)\<close>: two permutation
  lookups, the gradient of the hash, and its dot product with the vector from the corner to
  the point.
\<close>

definition spec_corner ::
  "(int \<Rightarrow> int) \<Rightarrow> (int \<Rightarrow> vec2) \<Rightarrow> int \<Rightarrow> int \<Rightarrow> real \<Rightarrow> real \<Rightarrow> int \<Rightarrow> int \<Rightarrow> real" where
  "spec_corner P G X Y xf yf dx dy =
     dot (G (P (P (X + dx) + Y + dy))) (xf - of_int dx, yf - of_int dy)"

text \<open>
  The sample on a permutation table \<open>P\<close> and a gradient table \<open>G\<close>: ``first along x
  producing two intermediate values, then along y''.
\<close>

definition spec_sample :: "(int \<Rightarrow> int) \<Rightarrow> (int \<Rightarrow> vec2) \<Rightarrow> real \<Rightarrow> real \<Rightarrow> real" where
  "spec_sample P G x y =
     (let X = \<lfloor>x\<rfloor> mod 256;
          Y = \<lfloor>y\<rfloor> mod 256;
          xf = x - of_int \<lfloor>x\<rfloor>;
          yf = y - of_int \<lfloor>y\<rfloor>;
          u = spec_fade xf;
          v = spec_fade yf;
          low = spec_lerp (spec_corner P G X Y xf yf 0 0) (spec_corner P G X Y xf yf 1 0) u;
          high = spec_lerp (spec_corner P G X Y xf yf 0 1) (spec_corner P G X Y xf yf 1 1) u
      in spec_lerp low high v)"

section \<open>Properties\<close>

subsection \<open>The bitwise operators, the remainder and the pick index\<close>

lemma sint32_small: "- (2 ^ 31) \<le> k \<Longrightarrow> k < 2 ^ 31 \<Longrightarrow> sint (word_of_int k :: 32 word) = k"
  by (simp add: sint_sbintrunc' signed_take_bit_int_eq_self)

lemma and255_int: "(n::int) AND 255 = n mod 256"
proof -
  have "n AND mask 8 = take_bit 8 n" by (simp add: take_bit_eq_mask)
  then show ?thesis by (simp add: take_bit_eq_mod mask_eq_exp_minus_1)
qed

lemma and255_mod: "and255 n = n mod 256"
proof -
  have "(word_of_int n :: 32 word) AND 255 = word_of_int (n AND 255)"
    by (metis of_int_numeral of_int_and_eq)
  moreover have "0 \<le> n mod 256" "n mod 256 < 256" by simp_all
  ultimately show ?thesis
    by (simp add: and255_def and255_int sint32_small)
qed

lemma or_bound: "0 \<le> (n::int) \<Longrightarrow> n < 256 \<Longrightarrow> n OR push_bit 8 n < 65536"
  using OR_upper [of n 16 "push_bit 8 n"] by (simp add: push_bit_eq_mult)

lemma or_shl8_small:
  assumes "0 \<le> n" "n < 256"
  shows "or_shl8 n = n OR push_bit 8 n"
proof -
  have "(word_of_int n :: 32 word) OR push_bit 8 (word_of_int n) = word_of_int (n OR push_bit 8 n)"
    by (simp add: push_bit_of_int word_wi_log_defs(3))
  moreover have "sint (word_of_int (n OR push_bit 8 n) :: 32 word) = n OR push_bit 8 n"
  proof (rule sint32_small)
    have "0 \<le> n OR push_bit 8 n" using assms by simp
    then show "- (2 ^ 31) \<le> n OR push_bit 8 n" by (rule order_trans [rotated]) simp
    have "n OR push_bit 8 n < 65536" using assms by (rule or_bound)
    then show "n OR push_bit 8 n < 2 ^ 31" by simp
  qed
  ultimately show ?thesis by (simp add: or_shl8_def)
qed

lemma or_shl8_neg1: "or_shl8 (-1) = -1"
  by (simp add: or_shl8_def)

lemma prepare_seed_nonneg:
  assumes "0 \<le> v"
  shows "0 \<le> prepare_seed v"
proof -
  define v1 where "v1 = (if 0 < v \<and> v < 1 then v * 65536 else v)"
  have "0 \<le> v1" using assms by (simp add: v1_def)
  then have n: "0 \<le> \<lfloor>v1\<rfloor>" by simp
  show ?thesis
  proof (cases "\<lfloor>v1\<rfloor> < 256")
    case True
    with n have "or_shl8 \<lfloor>v1\<rfloor> = \<lfloor>v1\<rfloor> OR push_bit 8 \<lfloor>v1\<rfloor>" by (simp add: or_shl8_small)
    with n True show ?thesis by (simp add: prepare_seed_def v1_def Let_def)
  next
    case False
    with n show ?thesis by (simp add: prepare_seed_def v1_def Let_def)
  qed
qed

lemma js_rem_nonneg: "0 \<le> a \<Longrightarrow> 0 < b \<Longrightarrow> js_rem a b = a mod b"
  by (cases "a = 0") (simp_all add: js_rem_def)

lemma js_rem_abs: "b \<noteq> 0 \<Longrightarrow> \<bar>js_rem a b\<bar> < \<bar>b\<bar>"
  by (simp add: js_rem_def abs_mult abs_sgn_eq)

lemma next_seed_nonneg: "0 \<le> s \<Longrightarrow> next_seed s = (s * 16807) mod 2147483647"
  by (simp add: next_seed_def js_rem_nonneg)

lemma next_seed_abs: "\<bar>next_seed s\<bar> < 2147483647"
  using js_rem_abs [of 2147483647 "s * 16807"] by (simp add: next_seed_def)

lemma pick_div: "pick s i = (s * (i + 1)) div 2147483647"
proof -
  have "(real_of_int s / 2147483647) * real_of_int (i + 1) = real_of_int (s * (i + 1)) / real_of_int 2147483647"
    by simp
  then show ?thesis unfolding pick_def by (simp only: floor_divide_of_int_eq)
qed

lemma pick_le:
  assumes "\<bar>s\<bar> < 2147483647" "0 \<le> i"
  shows "pick s i \<le> i"
proof -
  have "real_of_int s / 2147483647 < 1" using assms by simp
  moreover have "0 < real_of_int (i + 1)" using assms by simp
  ultimately have "(real_of_int s / 2147483647) * real_of_int (i + 1) < 1 * real_of_int (i + 1)"
    by (rule mult_strict_right_mono)
  then show ?thesis by (simp add: pick_def floor_le_iff)
qed

lemma pick_nonneg: "0 \<le> s \<Longrightarrow> 0 \<le> i \<Longrightarrow> 0 \<le> pick s i"
  by (simp add: pick_def)

lemma pick_neg:
  assumes "s < 0" "0 \<le> i"
  shows "pick s i < 0"
proof -
  have "real_of_int s / 2147483647 < 0" using assms by simp
  moreover have "0 < real_of_int (i + 1)" using assms by simp
  ultimately have "(real_of_int s / 2147483647) * real_of_int (i + 1) < 0"
    by (rule mult_neg_pos)
  then show ?thesis by (simp add: pick_def floor_less_iff)
qed

lemma identity_table_eq: "identity_table k = (if 0 \<le> k \<and> k < 256 then Num k else Undefined)"
proof -
  have "fold (\<lambda>i p. p(int i := Num (int i))) [0..<n] (\<lambda>_. Undefined) k
        = (if 0 \<le> k \<and> k < int n then Num k else Undefined)" for n
    by (induction n) auto
  then show ?thesis by (simp add: identity_table_def)
qed

subsection \<open>The shuffle and the two tables\<close>

lemma shuffle_above: "int n < k \<Longrightarrow> shuffle n s p k = p k"
proof (induction n arbitrary: s p)
  case 0
  then show ?case by simp
next
  case (Suc n)
  let ?s = "next_seed s"
  let ?r = "pick ?s (int (Suc n))"
  have "?r \<le> int (Suc n)" by (rule pick_le) (simp_all add: next_seed_abs)
  with Suc.prems have "?r \<noteq> k" "int (Suc n) \<noteq> k" "int n < k" by simp_all
  then show ?case using Suc.IH [of ?s] by (simp add: Let_def del: of_nat_Suc)
qed

lemma shuffle_top:
  "shuffle (Suc n) s p (int (Suc n)) = p (pick (next_seed s) (int (Suc n)))"
proof -
  have "int n < int (Suc n)" by simp
  then show ?thesis
    by (simp only: shuffle.simps Let_def shuffle_above fun_upd_apply) auto
qed

lemma seed_neg1_last: "shuffle 255 (prepare_seed (- 1)) identity_table 255 = Undefined"
proof -
  have "\<lfloor>- 1 :: real\<rfloor> = - 1" using floor_of_int [of "- 1", where ?'a = real] by simp
  then have p: "prepare_seed (- 1) = - 1" by (simp add: prepare_seed_def or_shl8_neg1)
  have s: "next_seed (- 1) = - 16807" by (simp add: next_seed_def js_rem_def)
  have r: "pick (- 16807) 255 < 0" by (rule pick_neg) simp_all
  then have u: "identity_table (pick (- 16807) 255) = Undefined" by (simp add: identity_table_eq)
  show ?thesis using shuffle_top [of 254 "- 1" identity_table] by (simp add: p s u)
qed

lemma write_slot_perm:
  "perm (write_slot p n g) k = (if k = int n \<or> k = int n + 256 then p (int n) else perm g k)"
  by (simp add: write_slot_def Let_def)

lemma write_slot_gradP:
  "gradP (write_slot p n g) k =
     (if k = int n \<or> k = int n + 256 then grad3_at (p (int n)) else gradP g k)"
  by (simp add: write_slot_def Let_def)

lemma fold_write_perm:
  "n \<le> 256 \<Longrightarrow> perm (fold (write_slot p) [0..<n] f) k =
     (if 0 \<le> k \<and> k < int n then p k
      else if 256 \<le> k \<and> k < 256 + int n then p (k - 256) else perm f k)"
  by (induction n) (auto simp: write_slot_perm)

lemma fold_write_gradP:
  "n \<le> 256 \<Longrightarrow> gradP (fold (write_slot p) [0..<n] f) k =
     (if 0 \<le> k \<and> k < int n then grad3_at (p k)
      else if 256 \<le> k \<and> k < 256 + int n then grad3_at (p (k - 256)) else gradP f k)"
  by (induction n) (auto simp: write_slot_gradP)

lemma perm_write_tables:
  "perm (write_tables p f) k =
     (if 0 \<le> k \<and> k < 256 then p k
      else if 256 \<le> k \<and> k < 512 then p (k - 256) else perm f k)"
  using fold_write_perm [of 256 p f k] by (simp add: write_tables_def)

lemma gradP_write_tables:
  "gradP (write_tables p f) k =
     (if 0 \<le> k \<and> k < 256 then grad3_at (p k)
      else if 256 \<le> k \<and> k < 512 then grad3_at (p (k - 256)) else gradP f k)"
  using fold_write_gradP [of 256 p f k] by (simp add: write_tables_def)

lemma prepare_seed_spec: 
  assumes "0 \<le> v"
  shows "prepare_seed v = spec_prepare v"
proof -
  define v1 where "v1 = (if 0 < v \<and> v < 1 then v * 65536 else v)"
  have "0 \<le> v1" using assms by (simp add: v1_def)
  then have "0 \<le> \<lfloor>v1\<rfloor>" by simp
  then have "\<lfloor>v1\<rfloor> < 256 \<Longrightarrow> or_shl8 \<lfloor>v1\<rfloor> = \<lfloor>v1\<rfloor> OR push_bit 8 \<lfloor>v1\<rfloor>"
    by (simp add: or_shl8_small)
  then show ?thesis
    by (simp add: prepare_seed_def spec_prepare_def Let_def flip: v1_def)
qed

lemma spec_shuffle_Suc:
  "spec_shuffle (Suc n) s xs =
     spec_shuffle n ((s * 16807) mod 2147483647)
       (xs[Suc n := xs ! nat (pick ((s * 16807) mod 2147483647) (int (Suc n))),
           nat (pick ((s * 16807) mod 2147483647) (int (Suc n))) := xs ! Suc n])"
  by (simp add: Let_def pick_def add.commute)

lemma shuffle_Suc:
  "shuffle (Suc n) s p =
     shuffle n (next_seed s)
       (p(int (Suc n) := p (pick (next_seed s) (int (Suc n))),
          pick (next_seed s) (int (Suc n)) := p (int (Suc n))))"
  by (simp only: shuffle.simps Let_def)

lemma spec_shuffle_perm:
  "n < length xs \<Longrightarrow>
     length (spec_shuffle n s xs) = length xs
     \<and> set (spec_shuffle n s xs) = set xs
     \<and> distinct (spec_shuffle n s xs) = distinct xs"
proof (induction n arbitrary: s xs)
  case 0
  then show ?case by simp
next
  case (Suc n)
  let ?s = "(s * 16807) mod 2147483647"
  let ?r = "nat (pick ?s (int (Suc n)))"
  let ?xs = "xs[Suc n := xs ! ?r, ?r := xs ! Suc n]"
  have "pick ?s (int (Suc n)) \<le> int (Suc n)" by (rule pick_le) (simp_all del: of_nat_Suc)
  then have r: "?r < length xs" using Suc.prems by linarith
  have n: "n < length ?xs" using Suc.prems by simp
  have "length ?xs = length xs" by simp
  moreover have "set ?xs = set xs" using r Suc.prems by simp
  moreover have "distinct ?xs = distinct xs" using r Suc.prems by simp
  ultimately show ?case
    using Suc.IH [OF n, of ?s] by (simp only: spec_shuffle_Suc)
qed

lemma shuffle_refines:
  assumes "0 \<le> s" "length xs = 256" "n \<le> 255" "\<forall>k<256. p (int k) = Num (xs ! k)"
  shows "\<forall>k<256. shuffle n s p (int k) = Num (spec_shuffle n s xs ! k)"
  using assms
proof (induction n arbitrary: s p xs)
  case 0
  then show ?case by simp
next
  case (Suc n)
  let ?s = "(s * 16807) mod 2147483647"
  have s: "next_seed s = ?s" using Suc.prems(1) by (rule next_seed_nonneg)
  have "0 \<le> pick ?s (int (Suc n))" by (rule pick_nonneg) simp_all
  then obtain r where c: "pick ?s (int (Suc n)) = int r" using nonneg_int_cases by blast
  have "pick ?s (int (Suc n)) \<le> int (Suc n)" by (rule pick_le) (simp_all del: of_nat_Suc)
  then have r: "r < 256" "Suc n < 256" using Suc.prems(3) c by linarith+
  let ?xs = "xs[Suc n := xs ! r, r := xs ! Suc n]"
  let ?p = "p(int (Suc n) := p (int r), int r := p (int (Suc n)))"
  have "\<forall>k<256. ?p (int k) = Num (?xs ! k)"
    using Suc.prems(2,4) r by (simp add: nth_list_update del: of_nat_Suc)
  moreover have "0 \<le> ?s" "length ?xs = 256" "n \<le> 255" using Suc.prems by simp_all
  ultimately have "\<forall>k<256. shuffle n ?s ?p (int k) = Num (spec_shuffle n ?s ?xs ! k)"
    by (rule Suc.IH [rotated 3])
  then show ?case
    by (simp only: shuffle_Suc spec_shuffle_Suc s c nat_int)
qed

lemma identity_list: "\<forall>k<256. identity_table (int k) = Num ([0..255] ! k)"
  by (simp add: identity_table_eq)

lemma spec_permutation_props:
  "length (spec_permutation v) = 256"
  "set (spec_permutation v) = {0..255}"
  "distinct (spec_permutation v)"
  using spec_shuffle_perm [of 255 "[0..255]" "spec_prepare v"]
  by (simp_all add: spec_permutation_def)

lemma shuffle_seed_spec:
  assumes "0 \<le> v" "k < 256"
  shows "shuffle 255 (prepare_seed v) identity_table (int k) = Num (spec_permutation v ! k)"
proof -
  have "\<forall>k<256. shuffle 255 (prepare_seed v) identity_table (int k)
          = Num (spec_shuffle 255 (prepare_seed v) [0..255] ! k)"
    using assms(1) by (intro shuffle_refines prepare_seed_nonneg identity_list) simp_all
  then show ?thesis using assms by (simp add: spec_permutation_def prepare_seed_spec)
qed

lemma seed_tables_spec:
  assumes "0 \<le> v" "k < 256"
  shows "perm (seed v f) (int k) = Num (spec_permutation v ! k)"
    and "perm (seed v f) (int k + 256) = Num (spec_permutation v ! k)"
    and "gradP (seed v f) (int k) = grad3_at (Num (spec_permutation v ! k))"
    and "gradP (seed v f) (int k + 256) = grad3_at (Num (spec_permutation v ! k))"
  using assms by (simp_all add: seed_def perm_write_tables gradP_write_tables shuffle_seed_spec)

lemma spec_permutation_range:
  "k < 256 \<Longrightarrow> 0 \<le> spec_permutation v ! k \<and> spec_permutation v ! k < 256"
proof -
  assume "k < 256"
  then have "spec_permutation v ! k \<in> set (spec_permutation v)"
    by (intro nth_mem) (simp add: spec_permutation_props(1))
  then have "spec_permutation v ! k \<in> {0..255}"
    by (simp only: spec_permutation_props(2))
  then show ?thesis by simp
qed

lemma seed_tables_ok:
  assumes "0 \<le> v"
  shows "tables_ok (seed v f)"
  unfolding tables_ok_def
proof
  fix k :: int assume "k \<in> {0..<512}"
  then consider j where "j < 256" "k = int j" | j where "j < 256" "k = int j + 256"
  proof -
    assume a: "\<And>j. j < 256 \<Longrightarrow> k = int j \<Longrightarrow> thesis" and b: "\<And>j. j < 256 \<Longrightarrow> k = int j + 256 \<Longrightarrow> thesis"
    show thesis
    proof (cases "k < 256")
      case True
      with \<open>k \<in> {0..<512}\<close> show thesis using a [of "nat k"] by simp
    next
      case False
      with \<open>k \<in> {0..<512}\<close> show thesis using b [of "nat (k - 256)"] by simp
    qed
  qed
  then show "\<exists>n\<in>{0..<256}. perm (seed v f) k = Num n \<and> gradP (seed v f) k = grad3_at (Num n)"
  proof cases
    case 1
    then show ?thesis using seed_tables_spec(1,3) [OF assms, of j f] spec_permutation_range [of j v]
      by auto
  next
    case 2
    then show ?thesis using seed_tables_spec(2,4) [OF assms, of j f] spec_permutation_range [of j v]
      by auto
  qed
qed

lemma grad3_at_nonneg: "0 \<le> n \<Longrightarrow> grad3_at (Num n) = Some (grad3 ! nat (n mod 8))"
  by (simp add: js_rem_nonneg Let_def)

lemma grad3_member: "0 \<le> n \<Longrightarrow> grad3 ! nat (n mod 8) \<in> set grad3"
proof -
  assume "0 \<le> n"
  have "nat (n mod 8) < length grad3" by (simp add: grad3_def nat_less_iff)
  then show ?thesis by (rule nth_mem)
qed

lemma tables_okD:
  assumes "tables_ok f" "0 \<le> k" "k < 512"
  shows "perm f k = Num (perm_of f k)" "0 \<le> perm_of f k" "perm_of f k < 256"
    "gradP f k = Some (grad_of f k)" "grad_of f k \<in> set grad3"
proof -
  from assms obtain n where n: "0 \<le> n" "n < 256" "perm f k = Num n" "gradP f k = grad3_at (Num n)"
    unfolding tables_ok_def by force
  then show "perm f k = Num (perm_of f k)" "0 \<le> perm_of f k" "perm_of f k < 256"
    by (simp_all add: perm_of_def)
  from n show "gradP f k = Some (grad_of f k)" "grad_of f k \<in> set grad3"
    by (simp_all add: grad_of_def grad3_at_nonneg grad3_member del: grad3_at.simps)
qed

lemma grad_ok:
  assumes "tables_ok f" "0 \<le> h" "h < 256"
  shows "grad f (Num h) a b = Inr (dot (grad_of f h) (a, b))"
  using tables_okD(4) [OF assms(1), of h] assms(2,3)
  by (simp add: grad_def and255_mod dot_def)

lemma corner_ok:
  assumes "tables_ok f" "0 \<le> X" "X \<le> 256" "0 \<le> Y" "Y \<le> 256"
  shows "grad f (js_index (perm f) (js_plus (perm f X) Y)) a b
         = Inr (dot (grad_of f (perm_of f (perm_of f X + Y))) (a, b))"
proof -
  have X: "perm f X = Num (perm_of f X)" "0 \<le> perm_of f X" "perm_of f X < 256"
    using tables_okD(1-3) [OF assms(1), of X] assms by simp_all
  let ?k = "perm_of f X + Y"
  have k: "0 \<le> ?k" "?k < 512" using X assms by simp_all
  have h: "perm f ?k = Num (perm_of f ?k)" "0 \<le> perm_of f ?k" "perm_of f ?k < 256"
    using tables_okD(1-3) [OF assms(1) k] by simp_all
  show ?thesis using grad_ok [OF assms(1) h(2,3)] by (simp add: X h(1))
qed


lemma frac_range: "0 \<le> x - of_int \<lfloor>x\<rfloor>" "x - of_int \<lfloor>x\<rfloor> < (1::real)"
  by linarith+

lemma noise2D_ok:
  assumes "tables_ok f"
  shows "noise2D f x y =
     Inr (lerp
       (lerp (spec_corner (perm_of f) (grad_of f) (\<lfloor>x\<rfloor> mod 256) (\<lfloor>y\<rfloor> mod 256)
                (x - of_int \<lfloor>x\<rfloor>) (y - of_int \<lfloor>y\<rfloor>) 0 0)
             (spec_corner (perm_of f) (grad_of f) (\<lfloor>x\<rfloor> mod 256) (\<lfloor>y\<rfloor> mod 256)
                (x - of_int \<lfloor>x\<rfloor>) (y - of_int \<lfloor>y\<rfloor>) 0 1)
             (fade (y - of_int \<lfloor>y\<rfloor>)))
       (lerp (spec_corner (perm_of f) (grad_of f) (\<lfloor>x\<rfloor> mod 256) (\<lfloor>y\<rfloor> mod 256)
                (x - of_int \<lfloor>x\<rfloor>) (y - of_int \<lfloor>y\<rfloor>) 1 0)
             (spec_corner (perm_of f) (grad_of f) (\<lfloor>x\<rfloor> mod 256) (\<lfloor>y\<rfloor> mod 256)
                (x - of_int \<lfloor>x\<rfloor>) (y - of_int \<lfloor>y\<rfloor>) 1 1)
             (fade (y - of_int \<lfloor>y\<rfloor>)))
       (fade (x - of_int \<lfloor>x\<rfloor>)))"
proof -
  let ?X = "\<lfloor>x\<rfloor> mod 256" and ?Y = "\<lfloor>y\<rfloor> mod 256"
  have X: "0 \<le> ?X" "?X \<le> 256" "0 \<le> ?X + 1" "?X + 1 \<le> 256" 
    and Y: "0 \<le> ?Y" "?Y \<le> 256" "0 \<le> ?Y + 1" "?Y + 1 \<le> 256"
    by simp_all
  have p0: "perm f ?X = Num (perm_of f ?X)" using tables_okD(1) [OF assms, of ?X] by simp
  have p1: "perm f (?X + 1) = Num (perm_of f (?X + 1))"
    using tables_okD(1) [OF assms, of "?X + 1"] X by simp
  have c00: "grad f (js_index (perm f) (js_plus (perm f ?X) ?Y)) a b
      = Inr (dot (grad_of f (perm_of f (perm_of f ?X + ?Y))) (a, b))" for a b
    by (rule corner_ok [OF assms X(1,2) Y(1,2)])
  have c01: "grad f (js_index (perm f) (js_plus (js_plus (perm f ?X) ?Y) 1)) a b
      = Inr (dot (grad_of f (perm_of f (perm_of f ?X + (?Y + 1)))) (a, b))" for a b
    using corner_ok [OF assms X(1,2) Y(3,4)] by (simp add: p0 add.assoc)
  have c10: "grad f (js_index (perm f) (js_plus (perm f (?X + 1)) ?Y)) a b
      = Inr (dot (grad_of f (perm_of f (perm_of f (?X + 1) + ?Y))) (a, b))" for a b
    by (rule corner_ok [OF assms X(3,4) Y(1,2)])
  have c11: "grad f (js_index (perm f) (js_plus (js_plus (perm f (?X + 1)) ?Y) 1)) a b
      = Inr (dot (grad_of f (perm_of f (perm_of f (?X + 1) + (?Y + 1)))) (a, b))" for a b
    using corner_ok [OF assms X(3,4) Y(3,4)] by (simp add: p1 add.assoc)
  show ?thesis
    unfolding noise2D_def Let_def and255_mod c00 c01 c10 c11 spec_corner_def
    by (simp add: add.assoc)
qed

subsection \<open>The fade curve and the interpolation\<close>

lemma fade_spec: "fade t = spec_fade t"
  by (simp add: fade_def spec_fade_def power_numeral_reduce algebra_simps)

lemma bilinear_swap:
  "lerp (lerp c00 c01 v) (lerp c10 c11 v) u = spec_lerp (spec_lerp c00 c10 u) (spec_lerp c01 c11 u) v"
  by (simp add: lerp_def spec_lerp_def algebra_simps)

lemma fade_nonneg: 
  assumes "0 \<le> t" 
  shows "0 \<le> fade t"
proof -
  have "t * (t * 6 - 15) + 10 = 6 * (t - 5 / 4)\<^sup>2 + 5 / 8"
    by (simp add: power2_eq_square algebra_simps)
  then have "0 \<le> t * (t * 6 - 15) + 10" by simp
  moreover have "0 \<le> t * t * t" using assms by simp
  ultimately show ?thesis unfolding fade_def by (rule mult_nonneg_nonneg [rotated])
qed

lemma fade_le_one:
  assumes "0 \<le> t" "t \<le> 1"
  shows "fade t \<le> 1"
proof -
  have "1 - fade t = (1 - t) * (1 - t) * (1 - t) * (6 * t * t + 3 * t + 1)"
    by (simp add: fade_def algebra_simps)
  moreover have "0 \<le> (1 - t) * (1 - t) * (1 - t)" using assms by simp
  moreover have "0 \<le> 6 * t * t + 3 * t + 1" using assms by simp
  ultimately have "0 \<le> 1 - fade t" by simp
  then show ?thesis by simp
qed

lemma fade_half:
  assumes "0 \<le> t" "t \<le> 1"
  shows "(1 - fade t) * t + fade t * (1 - t) \<le> 1 / 2"
proof -
  define w where "w = t * (1 - t)"
  have w: "0 \<le> w" using assms by (simp add: w_def)
  have "1 / 2 - ((1 - fade t) * t + fade t * (1 - t))
        = (2 * t - 1) * (2 * t - 1) * (1 / 2 + w * (1 + 3 * w))"
    by (simp add: fade_def w_def algebra_simps)
  moreover have "0 \<le> (2 * t - 1) * (2 * t - 1)" by simp
  moreover have "0 \<le> 1 / 2 + w * (1 + 3 * w)" using w by simp
  ultimately have "0 \<le> 1 / 2 - ((1 - fade t) * t + fade t * (1 - t))" by simp
  then show ?thesis by simp
qed

lemma abs_lerp:
  assumes "0 \<le> t" "t \<le> 1" "\<bar>a\<bar> \<le> A" "\<bar>b\<bar> \<le> B"
  shows "\<bar>lerp a b t\<bar> \<le> (1 - t) * A + t * B"
proof -
  have "\<bar>lerp a b t\<bar> \<le> \<bar>(1 - t) * a\<bar> + \<bar>t * b\<bar>" unfolding lerp_def by (rule abs_triangle_ineq)
  also have "\<dots> = (1 - t) * \<bar>a\<bar> + t * \<bar>b\<bar>" using assms(1,2) by (simp add: abs_mult)
  also have "\<dots> \<le> (1 - t) * A + t * B"
    using assms by (intro add_mono mult_left_mono) simp_all
  finally show ?thesis .
qed

lemma dot_grad3: "g \<in> set grad3 \<Longrightarrow> \<bar>dot g (a, b)\<bar> \<le> \<bar>a\<bar> + \<bar>b\<bar>"
  by (auto simp: grad3_def dot_def)

lemma bilinear_bound:
  assumes x: "0 \<le> x" "x \<le> 1" and y: "0 \<le> y" "y \<le> 1"
    and c: "\<bar>c00\<bar> \<le> x + y" "\<bar>c01\<bar> \<le> x + (1 - y)" "\<bar>c10\<bar> \<le> (1 - x) + y" "\<bar>c11\<bar> \<le> (1 - x) + (1 - y)"
  shows "\<bar>lerp (lerp c00 c01 (fade y)) (lerp c10 c11 (fade y)) (fade x)\<bar> \<le> 1"
proof -
  let ?u = "fade x" and ?v = "fade y"
  have u: "0 \<le> ?u" "?u \<le> 1" and v: "0 \<le> ?v" "?v \<le> 1"
    using x y by (simp_all add: fade_nonneg fade_le_one)
  have low: "\<bar>lerp c00 c01 ?v\<bar> \<le> (1 - ?v) * (x + y) + ?v * (x + (1 - y))"
    using v c(1,2) by (rule abs_lerp)
  have high: "\<bar>lerp c10 c11 ?v\<bar> \<le> (1 - ?v) * ((1 - x) + y) + ?v * ((1 - x) + (1 - y))"
    using v c(3,4) by (rule abs_lerp)
  have "\<bar>lerp (lerp c00 c01 ?v) (lerp c10 c11 ?v) ?u\<bar>
      \<le> (1 - ?u) * ((1 - ?v) * (x + y) + ?v * (x + (1 - y)))
        + ?u * ((1 - ?v) * ((1 - x) + y) + ?v * ((1 - x) + (1 - y)))"
    using u low high by (rule abs_lerp)
  also have "\<dots> = ((1 - ?u) * x + ?u * (1 - x)) + ((1 - ?v) * y + ?v * (1 - y))"
    by (simp add: algebra_simps)
  also have "\<dots> \<le> 1 / 2 + 1 / 2"
    using x y by (intro add_mono fade_half)
  finally show ?thesis by simp
qed

subsection \<open>Sampling on well-formed tables\<close>

lemma corner_bound:
  assumes "tables_ok f" "0 \<le> X" "X \<le> 256" "0 \<le> Y" "Y \<le> 256"
  shows "\<bar>dot (grad_of f (perm_of f (perm_of f X + Y))) (a, b)\<bar> \<le> \<bar>a\<bar> + \<bar>b\<bar>"
proof -
  have X: "0 \<le> perm_of f X" "perm_of f X < 256"
    using tables_okD(2,3) [OF assms(1), of X] assms by simp_all
  let ?k = "perm_of f X + Y"
  have k: "0 \<le> ?k" "?k < 512" using X assms by simp_all
  have h: "0 \<le> perm_of f ?k" "perm_of f ?k < 512"
    using tables_okD(2,3) [OF assms(1) k] by simp_all
  have "grad_of f (perm_of f ?k) \<in> set grad3" by (rule tables_okD(5) [OF assms(1) h])
  then show ?thesis by (rule dot_grad3)
qed

lemma noise2D_spec:
  assumes "tables_ok f"
  shows "noise2D f x y = Inr (spec_sample (perm_of f) (grad_of f) x y)"
  by (simp only: noise2D_ok [OF assms] spec_sample_def Let_def bilinear_swap fade_spec)

lemma noise2D_bound:
  assumes "tables_ok f"
  shows "\<exists>r. noise2D f x y = Inr r \<and> - 1 \<le> r \<and> r \<le> 1"
proof -
  let ?X = "\<lfloor>x\<rfloor> mod 256" and ?Y = "\<lfloor>y\<rfloor> mod 256"
  let ?x = "x - of_int \<lfloor>x\<rfloor>" and ?y = "y - of_int \<lfloor>y\<rfloor>"
  let ?c = "spec_corner (perm_of f) (grad_of f) ?X ?Y ?x ?y"
  have X: "0 \<le> ?X" "?X \<le> 256" "0 \<le> ?X + 1" "?X + 1 \<le> 256" 
    and Y: "0 \<le> ?Y" "?Y \<le> 256" "0 \<le> ?Y + 1" "?Y + 1 \<le> 256"
    by simp_all
  have x: "0 \<le> ?x" "?x \<le> 1" and y: "0 \<le> ?y" "?y \<le> 1" 
    using frac_range [of x] frac_range [of y] by simp_all
  have c00: "\<bar>?c 0 0\<bar> \<le> ?x + ?y"
    using corner_bound [OF assms X(1,2) Y(1,2), of ?x ?y] x y by (simp add: spec_corner_def)
  have c01: "\<bar>?c 0 1\<bar> \<le> ?x + (1 - ?y)"
    using corner_bound [OF assms X(1,2) Y(3,4), of ?x "?y - 1"] x y
    by (simp add: spec_corner_def add.assoc)
  have c10: "\<bar>?c 1 0\<bar> \<le> (1 - ?x) + ?y"
    using corner_bound [OF assms X(3,4) Y(1,2), of "?x - 1" ?y] x y by (simp add: spec_corner_def)
  have c11: "\<bar>?c 1 1\<bar> \<le> (1 - ?x) + (1 - ?y)"
    using corner_bound [OF assms X(3,4) Y(3,4), of "?x - 1" "?y - 1"] x y
    by (simp add: spec_corner_def add.assoc)
  have "\<bar>lerp (lerp (?c 0 0) (?c 0 1) (fade ?y)) (lerp (?c 1 0) (?c 1 1) (fade ?y)) (fade ?x)\<bar> \<le> 1"
    using x y c00 c01 c10 c11 by (rule bilinear_bound)
  then show ?thesis unfolding noise2D_ok [OF assms] by (simp add: abs_le_iff)
qed

lemma noise2D_integer:
  assumes "tables_ok f"
  shows "noise2D f (of_int a) (of_int b) = Inr 0"
  unfolding noise2D_ok [OF assms]
  by (simp add: fade_def lerp_def spec_corner_def dot_def)

lemma seed_seed: "seed v (seed w f) = seed v f"
  by (rule PerlinNoise.equality) (auto simp: seed_def perm_write_tables gradP_write_tables)

lemma run_sampling: "list_all sampling cs \<Longrightarrow> run cs f = f"
proof (induction cs arbitrary: f)
  case Nil
  then show ?case by simp
next
  case (Cons c cs)
  then show ?case by (cases c) simp_all
qed

subsection \<open>The tables after a seed that is not negative\<close>

text \<open>
  For \<open>v \<ge> 0\<close>, with the exact generator, the two halves of each table are equal, the
  first 256 slots of \<open>perm\<close> are a permutation of 0..255, and each slot of \<open>gradP\<close> holds
  the palette vector of the slot of \<open>perm\<close> at the same index. This is what the code does
  for \<open>0 \<le> v < 2^38\<close>, where its products are exact.
\<close>

lemma seed_nonneg_invariant:
  assumes "0 \<le> v"
  shows "tables_ok (seed v f)"
    and "\<forall>k\<in>{0..<256}. perm (seed v f) (k + 256) = perm (seed v f) k
            \<and> gradP (seed v f) (k + 256) = gradP (seed v f) k
            \<and> gradP (seed v f) k = grad3_at (perm (seed v f) k)"
    and "perm (seed v f) ` {0..<256} = Num ` {0..<256}"
    and "inj_on (perm (seed v f)) {0..<256}"
proof -
  let ?xs = "spec_permutation v"
  have len: "length ?xs = 256" and st: "set ?xs = {0..255}" and di: "distinct ?xs"
    by (rule spec_permutation_props)+
  have p: "perm (seed v f) k = Num (?xs ! nat k)" if "k \<in> {0..<256}" for k
  proof -
    have k: "nat k < 256" "int (nat k) = k" using that by auto
    show ?thesis using seed_tables_spec(1) [OF assms k(1), of f] by (simp only: k(2))
  qed
  show "tables_ok (seed v f)" using assms by (rule seed_tables_ok)
  show "\<forall>k\<in>{0..<256}. perm (seed v f) (k + 256) = perm (seed v f) k
            \<and> gradP (seed v f) (k + 256) = gradP (seed v f) k
            \<and> gradP (seed v f) k = grad3_at (perm (seed v f) k)"
  proof
    fix k :: int assume k: "k \<in> {0..<256}"
    then have "nat k < 256" "int (nat k) = k" by auto
    then show "perm (seed v f) (k + 256) = perm (seed v f) k
            \<and> gradP (seed v f) (k + 256) = gradP (seed v f) k
            \<and> gradP (seed v f) k = grad3_at (perm (seed v f) k)"
      using seed_tables_spec [OF assms, of "nat k" f] by (simp del: grad3_at.simps)
  qed
  have "perm (seed v f) ` {0..<256} = Num ` set ?xs"
  proof (intro set_eqI iffI)
    fix a assume "a \<in> perm (seed v f) ` {0..<256}"
    then obtain k where k: "k \<in> {0..<256}" "a = perm (seed v f) k" by blast
    then have "nat k < length ?xs" unfolding len by auto
    then have "?xs ! nat k \<in> set ?xs" by (rule nth_mem)
    then show "a \<in> Num ` set ?xs" using k p by simp
  next
    fix a assume "a \<in> Num ` set ?xs"
    then obtain j where j: "j < length ?xs" "a = Num (?xs ! j)" by (auto simp: in_set_conv_nth)
    then have i: "int j \<in> {0..<256}" by (simp add: len)
    then have "perm (seed v f) (int j) = a" using p [of "int j"] j by simp
    then have "a = perm (seed v f) (int j)" by simp
    then show "a \<in> perm (seed v f) ` {0..<256}" using i by (rule image_eqI)
  qed
  then show "perm (seed v f) ` {0..<256} = Num ` {0..<256}"
    by (simp only: st atLeastLessThanPlusOne_atLeastAtMost_int [symmetric]) simp
  show "inj_on (perm (seed v f)) {0..<256}"
  proof (rule inj_onI)
    fix a b :: int assume a: "a \<in> {0..<256}" and b: "b \<in> {0..<256}"
      and e: "perm (seed v f) a = perm (seed v f) b"
    then have "?xs ! nat a = ?xs ! nat b" by (simp add: p)
    moreover have "nat a < length ?xs" "nat b < length ?xs" using a b unfolding len by auto
    ultimately have "nat a = nat b" using di by (simp add: nth_eq_iff_index_eq)
    then show "a = b" using a b by auto
  qed
qed

subsection \<open>Two concrete seeds\<close>

lemma shuffle_lookup:
  "shuffle (numeral n) s p k =
     (if numeral n < k then p k
      else if k = numeral n then p (pick (next_seed s) (numeral n))
      else shuffle (pred_numeral n) (next_seed s)
             (p(numeral n := p (pick (next_seed s) (numeral n)),
                pick (next_seed s) (numeral n) := p (numeral n))) k)"
proof -
  have n: "numeral n = Suc (pred_numeral n)" by (rule numeral_eq_Suc)
  have i: "int (Suc (pred_numeral n)) = numeral n" by (simp only: n [symmetric] of_nat_numeral)
  show ?thesis
    using shuffle_above [of "numeral n" k s p] shuffle_top [of "pred_numeral n" s p]
      shuffle_Suc [of "pred_numeral n" s p]
    by (simp only: i n [symmetric] of_nat_numeral split: if_splits) simp
qed

lemma seed_neg1_240: "shuffle 255 (- 1) identity_table 240 = Num 244"
  by (simp add: shuffle_lookup next_seed_def js_rem_def pick_div identity_table_eq)

lemma seed_neg1_244: "shuffle 255 (- 1) identity_table 244 = Undefined"
  by (simp add: shuffle_lookup next_seed_def js_rem_def pick_div identity_table_eq)

lemma prepare_seed_neg1: "prepare_seed (- 1) = - 1"
proof -
  have "\<lfloor>- 1 :: real\<rfloor> = - 1" using floor_of_int [of "- 1", where ?'a = real] by simp
  then show ?thesis by (simp add: prepare_seed_def or_shl8_neg1)
qed

lemma noise2D_neg1_throws: "noise2D (seed (- 1) empty_tables) 240 252 = Inl TypeError"
proof -
  let ?f = "seed (- 1) empty_tables"
  have a: "perm ?f 240 = Num 244" "perm ?f 496 = Num 244"
    by (simp_all add: seed_def perm_write_tables prepare_seed_neg1 seed_neg1_240)
  have b: "gradP ?f 244 = None"
    by (simp add: seed_def gradP_write_tables prepare_seed_neg1 seed_neg1_244)
  have "grad ?f (js_index (perm ?f) (js_plus (perm ?f 240) 252)) x y = Inl TypeError" for x y
    by (simp add: a b grad_def and255_mod)
  then show ?thesis by (simp add: noise2D_def Let_def and255_mod)
qed

lemma shuffle_zero:
  "shuffle n 0 p k =
     (if k = int n then p 0 else if 0 \<le> k \<and> k < int n then p (k + 1) else p k)"
proof (induction n arbitrary: p k)
  case 0
  then show ?case by simp
next
  case (Suc n)
  have s: "next_seed 0 = 0" by (simp add: next_seed_def js_rem_def)
  have r: "pick 0 i = 0" for i by (simp add: pick_def)
  show ?case
    by (simp only: shuffle_Suc s r Suc.IH) (auto simp: add.commute)
qed

lemma prepare_seed_zero: "prepare_seed 0 = 0"
  by (simp add: prepare_seed_def or_shl8_def)

lemma succ_mod_256:
  "0 \<le> k \<Longrightarrow> k < 512 \<Longrightarrow>
     (k + 1) mod 256 = (if k < 255 then k + 1 else if k = 255 then 0
                        else if k < 511 then k - 255 else (0::int))"
proof -
  assume k: "0 \<le> k" "k < 512"
  have "(k - 255 + 256) mod 256 = k - 255" if "256 \<le> k" "k < 511"
    using that by (simp only: mod_add_self2) simp
  moreover have "k - 255 + 256 = k + 1" by simp
  ultimately have "(k + 1) mod 256 = k - 255" if "256 \<le> k" "k < 511"
    using that by simp
  moreover have "(k + 1) mod 256 = 0" if "\<not> k < 511"
  proof -
    have "k = 511" using that k by simp
    then show ?thesis by simp
  qed
  ultimately show ?thesis using k by auto
qed

lemma perm_seed_zero:
  "0 \<le> k \<Longrightarrow> k < 512 \<Longrightarrow> perm (seed 0 f) k = Num ((k + 1) mod 256)"
  by (simp only: succ_mod_256)
     (auto simp: seed_def perm_write_tables prepare_seed_zero shuffle_zero identity_table_eq)

lemma gradP_seed_zero:
  "0 \<le> k \<Longrightarrow> k < 512 \<Longrightarrow> gradP (seed 0 f) k = grad3_at (Num ((k + 1) mod 256))"
  by (simp only: succ_mod_256)
     (auto simp: seed_def gradP_write_tables prepare_seed_zero shuffle_zero identity_table_eq
        simp del: grad3_at.simps)

lemma noise2D_seed_zero_a: "noise2D (seed 0 empty_tables) (3 / 4) 0 = Inr (- 309 / 1024)"
  by (simp add: noise2D_def Let_def and255_mod perm_seed_zero gradP_seed_zero grad_def js_rem_def
        grad3_def fade_def lerp_def)

lemma noise2D_seed_zero_b: "noise2D (seed 0 empty_tables) (3 / 2) 0 = Inr (1 / 2)"
  by (simp add: noise2D_def Let_def and255_mod perm_seed_zero gradP_seed_zero grad_def js_rem_def
        grad3_def fade_def lerp_def)

lemma perlin2D_seed_zero:
  "perlin2D (seed 0 empty_tables) (3 / 4) 0 2 (- 1 / 2) 2 = Inr (Finite (- 565 / 512))"
  by (simp add: perlin2D_def perlin_loop.simps noise2D_seed_zero_a noise2D_seed_zero_b js_div_def)

subsection \<open>Rounding to a double\<close>

lemma pow2_pos: "0 < pow2 e"
  by (simp add: pow2_def)

lemma pow2_powr: "pow2 e = 2 powr (of_int e)"
  by (simp add: pow2_def powr_int)

lemma exponent_eq:
  assumes "pow2 k \<le> \<bar>x\<bar>" "\<bar>x\<bar> < pow2 (k + 1)" "- 1022 \<le> k"
  shows "exponent x = k"
proof -
  have "0 < \<bar>x\<bar>" using assms(1) pow2_pos [of k] by linarith
  then have "\<lfloor>log 2 \<bar>x\<bar>\<rfloor> = k"
    using assms(1,2) by (simp add: floor_log_eq_powr_iff pow2_powr)
  then show ?thesis using assms(3) by (simp add: exponent_def)
qed

lemma round_even_bounds: "of_int (round_even r) \<le> r + 1 / 2" "r - 1 / 2 \<le> of_int (round_even r)"
  unfolding round_even_def Let_def by (auto; linarith)+


lemma pow2_mono: "a \<le> b \<Longrightarrow> pow2 a \<le> pow2 b"
  by (simp add: pow2_powr)

lemma pow2_add: "pow2 (a + b) = pow2 a * pow2 b"
  by (simp add: pow2_powr powr_add)

lemma abs_round_even: "\<bar>of_int (round_even r)\<bar> \<le> \<bar>r\<bar> + 1 / 2"
  using round_even_bounds [of r] by linarith

lemma fl_normal:
  assumes "pow2 k \<le> \<bar>x\<bar>" "\<bar>x\<bar> < pow2 (k + 1)" "- 1022 \<le> k" "k \<le> 1022"
  shows "fl x = Finite (of_int (round_even (x / pow2 (k - 52))) * pow2 (k - 52))"
proof -
  let ?e = "k - 52"
  let ?r = "of_int (round_even (x / pow2 ?e)) * pow2 ?e"
  have e: "exponent x = k" using assms(1-3) by (rule exponent_eq)
  have "\<bar>?r\<bar> = \<bar>of_int (round_even (x / pow2 ?e))\<bar> * pow2 ?e"
    using pow2_pos [of ?e] by (simp add: abs_mult)
  also have "\<dots> \<le> (\<bar>x / pow2 ?e\<bar> + 1 / 2) * pow2 ?e"
    using pow2_pos [of ?e] abs_round_even [of "x / pow2 ?e"] by (intro mult_right_mono) simp_all
  also have "\<dots> = \<bar>x\<bar> + pow2 ?e / 2"
    using pow2_pos [of ?e] by (simp add: field_simps)
  also have "\<dots> < pow2 (k + 1) + pow2 ?e"
    using assms(2) pow2_pos [of ?e] by simp
  also have "\<dots> \<le> pow2 1023 + pow2 1023"
    using assms(4) by (intro add_mono pow2_mono) simp_all
  also have "\<dots> = pow2 1024"
    using pow2_add [of 1023 1] by (simp add: pow2_def)
  finally have "\<not> pow2 1024 \<le> \<bar>?r\<bar>" by simp
  then show ?thesis by (simp add: fl_def Let_def e)
qed

lemma fl_zero: "fl 0 = Finite 0"
  using pow2_pos [of 1024] by (simp add: fl_def Let_def round_even_def)

lemma round_even_ge_floor: "\<lfloor>r\<rfloor> \<le> round_even r"
  by (simp add: round_even_def Let_def)

lemma fl_overflow:
  assumes "pow2 1024 \<le> x"
  shows "fl x = PosInfinity"
proof -
  have x: "0 < x" using assms pow2_pos [of 1024] by linarith
  define k where "k = \<lfloor>log 2 \<bar>x\<bar>\<rfloor>"
  have "2 powr real_of_int k \<le> x \<and> x < 2 powr real_of_int (k + 1)"
    using x floor_log_eq_powr_iff [of x 2 k] by (simp add: k_def)
  then have lo: "pow2 k \<le> x" by (simp add: pow2_powr)
  have "real_of_int 1024 \<le> log 2 x"
    using assms x by (simp add: le_log_iff pow2_powr)
  then have k: "1024 \<le> k" using x by (simp add: k_def le_floor_iff)
  then have e: "exponent x = k" by (simp add: exponent_def k_def)
  let ?e = "k - 52"
  let ?y = "x / pow2 ?e"
  have "pow2 k = pow2 52 * pow2 ?e" using pow2_add [of 52 ?e] by simp
  then have "pow2 52 \<le> ?y" using lo pow2_pos [of ?e] by (simp add: field_simps)
  then have "real_of_int (2 ^ 52) \<le> ?y" by (simp add: pow2_def)
  then have "2 ^ 52 \<le> \<lfloor>?y\<rfloor>" by (simp only: le_floor_iff)
  then have "2 ^ 52 \<le> round_even ?y" using round_even_ge_floor [of ?y] by linarith
  then have "real_of_int (2 ^ 52) \<le> of_int (round_even ?y)" by (simp only: of_int_le_iff)
  then have "pow2 52 * pow2 ?e \<le> of_int (round_even ?y) * pow2 ?e"
    using pow2_pos [of ?e] by (intro mult_right_mono) (simp_all add: pow2_def)
  then have "pow2 k \<le> of_int (round_even ?y) * pow2 ?e"
    using pow2_add [of 52 ?e] by simp
  moreover have "pow2 1024 \<le> pow2 k" using k by (rule pow2_mono)
  ultimately have "pow2 1024 \<le> \<bar>of_int (round_even ?y) * pow2 ?e\<bar>" by linarith
  then show ?thesis using x by (simp add: fl_def Let_def e)
qed

lemmas fl_at =
  fl_normal [where k = 3] fl_normal [where k = 2] fl_normal [where k = 1] fl_normal [where k = 0]
  fl_normal [where k = "- 1"] fl_normal [where k = "- 2"] fl_normal [where k = "- 3"]
  fl_normal [where k = "- 4"] fl_normal [where k = "- 5"] fl_normal [where k = "- 6"]

subsection \<open>The shuffle as a list of picks\<close>

lemma picks_append: "picks n s acc = picks n s [] @ acc"
proof (induction n arbitrary: s acc)
  case 0
  then show ?case by simp
next
  case (Suc n)
  show ?case
    using Suc.IH [of "next_seed s" "pick (next_seed s) (int (Suc n)) # acc"]
      Suc.IH [of "next_seed s" "[pick (next_seed s) (int (Suc n))]"]
    by simp
qed

lemma length_picks: "length (picks n s []) = n"
proof (induction n arbitrary: s)
  case 0
  then show ?case by simp
next
  case (Suc n)
  then show ?case using picks_append [of n "next_seed s" "[pick (next_seed s) (int (Suc n))]"] by simp
qed

lemma follow_append: "follow i (rs @ [r]) k = follow (i + int (length rs)) [r] (follow i rs k)"
  by (induction rs arbitrary: i k) (simp_all add: add.assoc add.commute)

lemma shuffle_follow: "shuffle n s p k = p (follow 1 (picks n s []) k)"
proof (induction n arbitrary: s p k)
  case 0
  then show ?case by simp
next
  case (Suc n)
  let ?s = "next_seed s"
  let ?r = "pick ?s (int (Suc n))"
  have "picks (Suc n) s [] = picks n ?s [] @ [?r]"
    using picks_append [of n ?s "[?r]"] by simp
  then have "follow 1 (picks (Suc n) s []) k
      = follow (1 + int n) [?r] (follow 1 (picks n ?s []) k)"
    by (simp add: follow_append length_picks)
  then show ?case
    by (simp only: shuffle_Suc Suc.IH) (auto simp: add.commute)
qed

lemma picks_numeral:
  "picks (numeral n) s acc =
     picks (pred_numeral n) (next_seed s) (pick (next_seed s) (numeral n) # acc)"
  using picks.simps(2) [of "pred_numeral n" s acc]
  by (simp only: numeral_eq_Suc [symmetric] of_nat_numeral)

lemma picks_one: "picks 1 s acc = pick (next_seed s) 1 # acc"
  using picks.simps(2) [of 0 s acc] by simp

subsection \<open>What a seeding writes\<close>

lemma perm_seed:
  "perm (seed A f) =
     (\<lambda>k. if 0 \<le> k \<and> k < 256 then shuffle 255 (prepare_seed A) identity_table k
          else if 256 \<le> k \<and> k < 512 then shuffle 255 (prepare_seed A) identity_table (k - 256)
          else perm f k)"
  by (rule ext) (simp add: seed_def perm_write_tables)

lemma gradP_seed:
  "gradP (seed A f) =
     (\<lambda>k. if 0 \<le> k \<and> k < 256 then grad3_at (shuffle 255 (prepare_seed A) identity_table k)
          else if 256 \<le> k \<and> k < 512
            then grad3_at (shuffle 255 (prepare_seed A) identity_table (k - 256))
          else gradP f k)"
  by (rule ext) (simp add: seed_def gradP_write_tables)

lemma outside_empty_seed: "outside_empty f \<Longrightarrow> outside_empty (seed A f)"
  by (auto simp: outside_empty_def perm_seed gradP_seed)

lemma outside_empty_new: "outside_empty (new_PerlinNoise r)"
  unfolding new_PerlinNoise_def
  by (rule outside_empty_seed) (simp add: outside_empty_def empty_tables_def)

lemma outside_empty_invoke: "outside_empty f \<Longrightarrow> outside_empty (snd (invoke c f))"
  by (cases c) (simp_all add: outside_empty_seed)

lemma outside_empty_run: "outside_empty f \<Longrightarrow> outside_empty (run cs f)"
  by (induction cs arbitrary: f) (simp_all add: outside_empty_invoke)

lemma seed_outside_empty:
  assumes "outside_empty f"
  shows "seed A f = seed A empty_tables"
proof (rule PerlinNoise.equality)
  show "perm (seed A f) = perm (seed A empty_tables)"
  proof (rule ext)
    fix k
    show "perm (seed A f) k = perm (seed A empty_tables) k"
      using assms
      by (auto simp: seed_def perm_write_tables outside_empty_def empty_tables_def)
  qed
  show "gradP (seed A f) = gradP (seed A empty_tables)"
  proof (rule ext)
    fix k
    show "gradP (seed A f) k = gradP (seed A empty_tables) k"
      using assms
      by (auto simp: seed_def gradP_write_tables outside_empty_def empty_tables_def)
  qed
qed simp

lemma seed_after_history: "seed A (run cs (new_PerlinNoise r)) = seed A empty_tables"
  by (intro seed_outside_empty outside_empty_run outside_empty_new)

subsection \<open>The seed 2415 and the doubles returned on two seeds\<close>

lemma picks_2415:
  "picks 255 2415 [] =
     [1, 1, 2, 0, 2, 3, 5, 8, 8, 9, 10, 0, 1, 14, 13, 15, 8, 2, 10, 6, 12, 3, 15, 9, 2, 18,
      25, 4, 13, 24, 29, 14, 31, 29, 27, 4, 9, 11, 29, 11, 11, 14, 30, 40, 35, 41, 38, 17, 44,
      35, 42, 48, 51, 45, 49, 36, 56, 3, 33, 19, 22, 25, 60, 57, 6, 65, 3, 3, 15, 58, 52, 72,
      44, 22, 7, 43, 24, 22, 10, 23, 50, 58, 50, 71, 70, 78, 15, 87, 89, 49, 48, 79, 18, 55,
      51, 40, 24, 77, 0, 69, 100, 42, 37, 4, 67, 81, 95, 25, 54, 19, 76, 88, 10, 35, 13, 7, 6,
      34, 104, 43, 90, 55, 7, 90, 10, 108, 110, 49, 2, 28, 119, 68, 32, 17, 100, 134, 3, 110,
      117, 74, 1, 18, 46, 18, 28, 121, 103, 122, 121, 82, 35, 101, 95, 3, 91, 27, 63, 39, 28,
      7, 87, 90, 115, 126, 27, 150, 116, 147, 166, 59, 140, 107, 55, 132, 31, 7, 10, 170, 83,
      115, 61, 159, 28, 130, 38, 19, 159, 22, 140, 182, 142, 89, 163, 82, 144, 51, 146, 167,
      187, 23, 126, 182, 45, 148, 17, 193, 123, 118, 83, 113, 88, 75, 48, 184, 129, 63, 77,
      160, 180, 151, 141, 139, 184, 159, 96, 85, 145, 49, 21, 123, 114, 0, 88, 130, 53, 100,
      225, 141, 198, 54, 26, 119, 190, 95, 38, 69, 124, 114, 153, 197, 159, 161, 199, 169, 4]"
  by (simp add: picks_numeral picks_one next_seed_def js_rem_def pick_div)

lemma prepare_seed_2415: "prepare_seed 2415 = 2415"
  by (simp add: prepare_seed_def)

lemma perm_seed_2415:
  "perm (seed 2415 f) 0 = Num 214" "perm (seed 2415 f) 1 = Num 20"
  "perm (seed 2415 f) 214 = Num 223" "perm (seed 2415 f) 215 = Num 129"
  "perm (seed 2415 f) 20 = Num 66" "perm (seed 2415 f) 21 = Num 12"
  by (simp_all add: seed_def perm_write_tables prepare_seed_2415 shuffle_follow picks_2415
        identity_table_eq)

lemma gradP_seed_2415:
  "gradP (seed 2415 f) 223 = Some (1, 1)" "gradP (seed 2415 f) 129 = Some (1, - 1)"
  "gradP (seed 2415 f) 66 = Some (- 1, 1)" "gradP (seed 2415 f) 12 = Some (- 1, - 1)"
  by (simp_all add: seed_def gradP_write_tables prepare_seed_2415 shuffle_follow picks_2415
        identity_table_eq js_rem_def grad3_def)


lemma noise2D_double_2415:
  "noise2D_double (seed 2415 empty_tables)
     (Finite (4503599595405563 / 9007199254740992))
     (Finite (4503599605200655 / 9007199254740992))
   = Inr (Finite (4503599627370497 / 4503599627370496))"
  by (simp add: noise2D_double_def Let_def and255_mod perm_seed_2415 gradP_seed_2415
        grad_double_def fade_double_def lerp_double_def dsub_def fl_at fl_zero pow2_def
        round_even_def)

lemma noise2D_double_zero_a: "noise2D_double (seed 0 empty_tables) (Finite (3 / 4)) (Finite 0) = Inr (Finite (- 309 / 1024))"
  by (simp add: noise2D_double_def Let_def and255_mod perm_seed_zero gradP_seed_zero grad_double_def js_rem_def
        grad3_def fade_double_def lerp_double_def dsub_def fl_at fl_zero pow2_def round_even_def)

lemma noise2D_double_zero_b: "noise2D_double (seed 0 empty_tables) (Finite (3 / 2)) (Finite 0) = Inr (Finite (1 / 2))"
  by (simp add: noise2D_double_def Let_def and255_mod perm_seed_zero gradP_seed_zero grad_double_def js_rem_def
        grad3_def fade_double_def lerp_double_def dsub_def fl_at fl_zero pow2_def round_even_def)

lemma noise2D_double_zero_c: "noise2D_double (seed 0 empty_tables) (Finite 3) (Finite 0) = Inr (Finite 0)"
  by (simp add: noise2D_double_def Let_def and255_mod perm_seed_zero gradP_seed_zero grad_double_def js_rem_def
        grad3_def fade_double_def lerp_double_def dsub_def fl_at fl_zero pow2_def round_even_def)

lemma perlin2D_double_negative_persistence:
  "perlin2D_double (seed 0 empty_tables) (Finite (3 / 4)) (Finite 0) 2 (Finite (- 1 / 2)) (Finite 2)
   = Inr (Finite (- 565 / 512))"
  using noise2D_double_zero_a noise2D_double_zero_b
  by (simp add: perlin2D_double_def perlin_loop_double.simps fl_at fl_zero pow2_def round_even_def
        Let_def)

lemma perlin2D_double_overflow:
  "perlin2D_double (seed 0 empty_tables) (Finite (3 / 4)) (Finite 0) 3
     (Finite 99999999999999996973312221251036165947450327545502362648241750950346848435554075534196338404706251868027512415973882408182135734368278484639385041047239877871023591066789981811181813306167128854888448) (Finite 2)
   = Inr NotANumber"
  using noise2D_double_zero_a noise2D_double_zero_b noise2D_double_zero_c
  by (simp add: perlin2D_double_def perlin_loop_double.simps fl_at fl_zero
        fl_normal [where k = 663] fl_normal [where k = 664] fl_overflow pow2_def round_even_def
        Let_def)

section \<open>The claims\<close>

subsection \<open>Seeding\<close>

text \<open>
  Claim C2, at the seed \<open>-1\<close>. The claim says that after the preprocessing the generator
  state becomes \<open>(seed * 16807) mod 2147483647\<close> and that the pick index
  \<open>floor((seed / 2147483647) * (i + 1))\<close> names the position swapped with \<open>i\<close>. At
  \<open>v = -1\<close> the preprocessing gives \<open>-1\<close> in the code and in the description alike. The
  code then computes \<open>-16807\<close>, since \<open>%\<close> keeps the sign of the dividend, where the modulus
  is 2147466840; its pick index at \<open>i = 255\<close> is \<open>-1\<close>, which is no position of the
  sequence; and slot 255 of \<open>perm\<close> ends as \<open>undefined\<close>, where the described shuffle
  leaves an integer. With the exact generator, code and description agree for every
  \<open>v \<ge> 0\<close> (lemmas \<open>prepare_seed_spec\<close> and \<open>seed_tables_spec\<close>).
\<close>

theorem seed_negative_differs_from_description:
  "prepare_seed (- 1) = spec_prepare (- 1)
   \<and> next_seed (prepare_seed (- 1)) = - 16807
   \<and> (spec_prepare (- 1) * 16807) mod 2147483647 = 2147466840
   \<and> pick (next_seed (prepare_seed (- 1))) 255 = - 1
   \<and> perm (seed (- 1) empty_tables) 255 \<noteq> Num (spec_permutation (- 1) ! 255)"
proof -
  have "\<lfloor>- 1 :: real\<rfloor> = - 1" using floor_of_int [of "- 1", where ?'a = real] by simp
  then have "spec_prepare (- 1) = - 1" by (simp add: spec_prepare_def)
  moreover have "next_seed (- 1) = - 16807" by (simp add: next_seed_def js_rem_def)
  moreover have "pick (- 16807) 255 = - 1" by (simp add: pick_div)
  moreover have "perm (seed (- 1) empty_tables) 255 = Undefined"
    by (simp add: seed_def perm_write_tables seed_neg1_last)
  ultimately show ?thesis by (simp add: prepare_seed_neg1)
qed

text \<open>
  Claim C6, at the seed \<open>-1\<close>. The claim says that after any call \<open>seed(v)\<close> the 512 slots
  of \<open>perm\<close> hold integers from 0 to 255 and the slots of \<open>gradP\<close> hold palette vectors.
  The code at \<open>v = -1\<close>: the floor is \<open>-1\<close>, the fold leaves \<open>-1\<close>, the generator gives
  \<open>-16807\<close> since \<open>%\<close> keeps the sign, the pick index \<open>r\<close> is negative, and
  \<open>p[255] = p[r]\<close> stores \<open>undefined\<close>, which no later step overwrites. So slot 255 and
  slot 511 of \<open>perm\<close> hold \<open>undefined\<close>, and so do the same slots of \<open>gradP\<close>. With
  the exact generator the claim holds for every \<open>v \<ge> 0\<close> (lemma
  \<open>seed_nonneg_invariant\<close>).
\<close>

theorem seed_negative_leaves_undefined:
  "perm (seed (- 1) empty_tables) 255 = Undefined
   \<and> perm (seed (- 1) empty_tables) 511 = Undefined
   \<and> gradP (seed (- 1) empty_tables) 255 = None
   \<and> gradP (seed (- 1) empty_tables) 511 = None"
  by (simp add: seed_def perm_write_tables gradP_write_tables seed_neg1_last)

text \<open>
  Claim C8. A call \<open>seed(A)\<close> writes the slots 0 to 511 of both tables with values
  computed from \<open>A\<close> alone, the shuffled sequence twice over and the palette vector of each
  of its values, and writes nothing else: after \<open>seed(A)\<close> the 512 slots are the same on
  any two objects. So on an object with any history of calls since
  its construction, the object after \<open>seed(A)\<close> is the one that \<open>seed(A)\<close> makes of the
  empty tables; and the calls \<open>seed(A)\<close>, \<open>seed(B)\<close>, \<open>seed(A)\<close> leave the same object
  as the first \<open>seed(A)\<close> did, with the same tables and the same values of \<open>noise2D\<close>
  and \<open>perlin2D\<close>.
\<close>

theorem reseed_independence:
  "seed A (seed B (seed A f)) = seed A f
   \<and> run [Seed A, Seed B, Seed A] f = run [Seed A] f
   \<and> perm (seed A f) =
       (\<lambda>k. if 0 \<le> k \<and> k < 256 then shuffle 255 (prepare_seed A) identity_table k
            else if 256 \<le> k \<and> k < 512 then shuffle 255 (prepare_seed A) identity_table (k - 256)
            else perm f k)
   \<and> gradP (seed A f) =
       (\<lambda>k. if 0 \<le> k \<and> k < 256 then grad3_at (shuffle 255 (prepare_seed A) identity_table k)
            else if 256 \<le> k \<and> k < 512
              then grad3_at (shuffle 255 (prepare_seed A) identity_table (k - 256))
            else gradP f k)
   \<and> (\<forall>k\<in>{0..<512}. perm (seed A f) k = perm (seed A g) k
                      \<and> gradP (seed A f) k = gradP (seed A g) k)
   \<and> seed A (run cs (new_PerlinNoise r)) = seed A empty_tables
   \<and> noise2D (seed A (seed B (seed A f))) x y = noise2D (seed A f) x y
   \<and> perlin2D (seed A (seed B (seed A f))) x y octaves persistence lacunarity
       = perlin2D (seed A f) x y octaves persistence lacunarity"
proof -
  have "\<forall>k\<in>{0..<512}. perm (seed A f) k = perm (seed A g) k
                      \<and> gradP (seed A f) k = gradP (seed A g) k"
    by (simp add: perm_seed gradP_seed)
  then show ?thesis
    using perm_seed [of A f] gradP_seed [of A f] by (simp add: seed_seed seed_after_history)
qed

text \<open>
  C8 at a concrete input: \<open>seed(-1)\<close> leaves slot 255 of \<open>perm\<close> undefined, and a
  following \<open>seed(0)\<close> writes there what it writes on the empty tables, the value 0.
\<close>

theorem reseed_independence_witness:
  "(255::int) \<in> {0..<512}
   \<and> perm (seed (- 1) empty_tables) 255 = Undefined
   \<and> perm (seed 0 (seed (- 1) empty_tables)) 255 = perm (seed 0 empty_tables) 255
   \<and> perm (seed 0 empty_tables) 255 = Num 0"
proof -
  have h: "(255::int) \<in> {0..<512}" by simp
  have "perm (seed (- 1) empty_tables) 255 = Undefined"
    by (simp add: seed_def perm_write_tables seed_neg1_last)
  moreover have "perm (seed 0 empty_tables) 255 = Num 0" by (simp add: perm_seed_zero)
  moreover have "perm (seed 0 (seed (- 1) empty_tables)) 255 = perm (seed 0 empty_tables) 255"
    using h reseed_independence [of 0 0 "seed (- 1) empty_tables" empty_tables "[]" 0 0 0 0 0 0]
    by blast
  ultimately show ?thesis using h by simp
qed

text \<open>
  Claim C3. Two fresh objects, whatever their constructors drew, hold the same tables once
  both are seeded with \<open>s\<close>, so \<open>noise2D\<close> and \<open>perlin2D\<close> return the same on both. A
  call of \<open>noise2D\<close> or \<open>perlin2D\<close> leaves the object as it was; hence after any sequence
  of sampling calls the object is unchanged and a further call returns what it would have
  returned before them.
\<close>

theorem seeded_sampling_deterministic:
  "seed s (new_PerlinNoise r1) = seed s (new_PerlinNoise r2)
   \<and> noise2D (seed s (new_PerlinNoise r1)) x y = noise2D (seed s (new_PerlinNoise r2)) x y
   \<and> perlin2D (seed s (new_PerlinNoise r1)) x y octaves persistence lacunarity
       = perlin2D (seed s (new_PerlinNoise r2)) x y octaves persistence lacunarity
   \<and> snd (invoke (Noise2D x y) f) = f
   \<and> snd (invoke (Perlin2D x y octaves persistence lacunarity) f) = f
   \<and> (list_all sampling cs \<longrightarrow> run cs f = f \<and> invoke c (run cs f) = invoke c f)"
  by (simp add: new_PerlinNoise_def seed_seed run_sampling)

text \<open>
  C3 at a concrete input: two objects built with the draws 1/4 and 3/4 and seeded with
  12345, and two sampling calls before a third.
\<close>

theorem seeded_sampling_deterministic_witness:
  "list_all sampling [Noise2D (1 / 2) (1 / 2), Perlin2D (1 / 2) (1 / 2) 4 (1 / 2) 2]
   \<and> noise2D (seed 12345 (new_PerlinNoise (1 / 4))) (1 / 2) (1 / 2)
       = noise2D (seed 12345 (new_PerlinNoise (3 / 4))) (1 / 2) (1 / 2)
   \<and> run [Noise2D (1 / 2) (1 / 2), Perlin2D (1 / 2) (1 / 2) 4 (1 / 2) 2]
         (seed 12345 (new_PerlinNoise (1 / 4)))
       = seed 12345 (new_PerlinNoise (1 / 4))
   \<and> invoke (Noise2D (1 / 2) (1 / 2))
         (run [Noise2D (1 / 2) (1 / 2), Perlin2D (1 / 2) (1 / 2) 4 (1 / 2) 2]
            (seed 12345 (new_PerlinNoise (1 / 4))))
       = invoke (Noise2D (1 / 2) (1 / 2)) (seed 12345 (new_PerlinNoise (1 / 4)))"
proof -
  have h: "list_all sampling [Noise2D (1 / 2) (1 / 2), Perlin2D (1 / 2) (1 / 2) 4 (1 / 2) 2]"
    by simp
  show ?thesis
    using h seeded_sampling_deterministic
      [of 12345 "1 / 4" "3 / 4" "1 / 2" "1 / 2" 4 "1 / 2" 2 "seed 12345 (new_PerlinNoise (1 / 4))"
          "[Noise2D (1 / 2) (1 / 2), Perlin2D (1 / 2) (1 / 2) 4 (1 / 2) 2]"
          "Noise2D (1 / 2) (1 / 2)"]
    by simp
qed

subsection \<open>The single-octave sample\<close>

text \<open>
  Claim C1. On an object whose tables are well-formed, \<open>noise2D(x, y)\<close> returns, for all
  real \<open>x\<close> and \<open>y\<close>, the sample of the description: the cell by floor and reduction to
  0..255, the quintic fade of the two offsets, four corners each hashed by two permutation
  lookups and dotted with the offset from that corner, and two nested linear interpolations
  (the description interpolates along x first, the code along y first).
\<close>

theorem noise2D_is_reference_sample:
  "tables_ok f \<Longrightarrow> noise2D f x y = Inr (spec_sample (perm_of f) (grad_of f) x y)"
  by (rule noise2D_spec)

text \<open>C1 on the object seeded with 0, at the point (3/4, 0).\<close>

theorem noise2D_is_reference_sample_witness:
  "tables_ok (seed 0 empty_tables)
   \<and> spec_sample (perm_of (seed 0 empty_tables)) (grad_of (seed 0 empty_tables)) (3 / 4) 0
       = - 309 / 1024"
proof -
  have h: "tables_ok (seed 0 empty_tables)" by (rule seed_tables_ok) simp
  show ?thesis
    using h noise2D_is_reference_sample [OF h, of "3 / 4" 0] noise2D_seed_zero_a by simp
qed

text \<open>
  Claim C4, after the seed 2415, at the doubles \<open>x = 0.49999999645117954\<close> and
  \<open>y = 0.4999999975386532\<close>, which are \<open>4503599595405563 / 2^53\<close> and
  \<open>4503599605200655 / 2^53\<close>. The claim, and the comment of the code at its
  \<open>return\<close>, say that the value returned lies in \<open>[-1, 1]\<close>. The tables are well-formed
  (lemma \<open>seed_tables_ok\<close>) and the four gradients of the cell \<open>(0, 0)\<close> point to its
  centre. The exact value of the expression is at most 1 (lemma \<open>noise2D_bound\<close>); the code
  rounds each of its operations and returns \<open>1 + 2^-52\<close>, the double
  \<open>1.0000000000000002\<close>.
\<close>

theorem noise2D_double_exceeds_one:
  "fl (4503599595405563 / 9007199254740992) = Finite (4503599595405563 / 9007199254740992)
   \<and> fl (4503599605200655 / 9007199254740992) = Finite (4503599605200655 / 9007199254740992)
   \<and> noise2D_double (seed 2415 empty_tables)
         (Finite (4503599595405563 / 9007199254740992))
         (Finite (4503599605200655 / 9007199254740992))
       = Inr (Finite (4503599627370497 / 4503599627370496))
   \<and> (1::real) < 4503599627370497 / 4503599627370496"
  using noise2D_double_2415 by (simp add: fl_at pow2_def round_even_def Let_def)

text \<open>
  Claim C10, after the seed \<open>-1\<close>. The claim says that \<open>noise2D\<close> returns 0 at every pair
  of integer coordinates, regardless of the seed. After \<open>seed(-1)\<close> the steps \<open>i = 244\<close> and
  \<open>i = 240\<close> of the shuffle both pick \<open>r = -128\<close>: slot 244 of \<open>perm\<close> holds
  \<open>undefined\<close>, so slot 244 of \<open>gradP\<close> is \<open>undefined\<close>, and slot 240 of \<open>perm\<close> holds
  244. At \<open>(240, 252)\<close> the first corner has \<open>perm[240] + 252 = 496\<close>, \<open>perm[496] = 244\<close>,
  and \<open>grad\<close> reads \<open>g[0]\<close> of \<open>gradP[244]\<close>: a TypeError, and no value is returned.
  On every object with well-formed tables the exact value of the call is 0 (lemma
  \<open>noise2D_integer\<close>).
\<close>

theorem noise2D_integer_throws_after_negative_seed:
  "noise2D (seed (- 1) empty_tables) 240 252 = Inl TypeError"
  by (rule noise2D_neg1_throws)

subsection \<open>The fractal sum\<close>

text \<open>
  Claim C5, on the object seeded with 0. The claim, and the comment of the code at its
  \<open>return\<close>, say that the normalised value lies in \<open>[-1, 1]\<close> for every persistence. With
  two octaves and the persistence \<open>-1/2\<close> the amplitudes are 1 and \<open>-1/2\<close>, the
  normalisation sum is 1/2, the samples at (3/4, 0) and (3/2, 0) are \<open>-309/1024\<close> and
  \<open>1/2\<close>, the total is \<open>-565/1024\<close> and the value returned is \<open>-565/512\<close>, the double
  \<open>-1.103515625\<close>: every operation is exact, in doubles as on exact numbers. With three
  octaves and the persistence \<open>1e200\<close> the third amplitude overflows to an infinity, the
  third sample is 0, and the value returned is NaN.
\<close>

theorem perlin2D_double_out_of_range:
  "perlin2D_double (seed 0 empty_tables) (Finite (3 / 4)) (Finite 0) 2 (Finite (- 1 / 2)) (Finite 2)
     = Inr (Finite (- 565 / 512))
   \<and> perlin2D (seed 0 empty_tables) (3 / 4) 0 2 (- 1 / 2) 2 = Inr (Finite (- 565 / 512))
   \<and> (- 565 / 512 :: real) < - 1
   \<and> perlin2D_double (seed 0 empty_tables) (Finite (3 / 4)) (Finite 0) 3
         (Finite 99999999999999996973312221251036165947450327545502362648241750950346848435554075534196338404706251868027512415973882408182135734368278484639385041047239877871023591066789981811181813306167128854888448)
         (Finite 2)
       = Inr NotANumber"
  using perlin2D_double_negative_persistence perlin2D_seed_zero perlin2D_double_overflow by simp

text \<open>
  Claim C7. With \<open>octaves = 1\<close>, \<open>perlin2D(x, y, 1, p, l)\<close> returns what
  \<open>noise2D(x, y)\<close> returns, for every object, every point and every persistence \<open>p\<close> and
  lacunarity \<open>l\<close> (and throws where \<open>noise2D\<close> throws).
\<close>

theorem single_octave_equivalence:
  "perlin2D f x y 1 p l =
     (case noise2D f x y of Inl e \<Rightarrow> Inl e | Inr n \<Rightarrow> Inr (Finite n))"
  by (simp add: perlin2D_def perlin_loop.simps js_div_def split: sum.splits)

text \<open>
  Claim C9. With \<open>octaves = 0\<close> the loop of \<open>perlin2D\<close> does not run, no sample is
  taken, and the method returns the quotient of the total 0 by the normalisation sum 0, which
  is NaN: nothing is thrown and no input is rejected, whatever the object, the point, the
  persistence and the lacunarity.
\<close>

theorem zero_octaves_divides_by_zero:
  "perlin_loop f x y 0 p l 0 0 1 1 0 = Inr (0, 0)
   \<and> perlin2D f x y 0 p l = Inr (js_div 0 0)
   \<and> perlin2D f x y 0 p l = Inr NotANumber"
  by (simp add: perlin2D_def perlin_loop.simps js_div_def)

end
